theory Spec2Isabelle
  imports Complex_Main
begin

section \<open>JSON values and Python dictionaries\<close>

text \<open>
  The values that \<^verbatim>\<open>json.loads\<close> produces and that the classifier stores in its
  result dictionaries. A Python \<^verbatim>\<open>dict\<close> keeps insertion order, so an object is an
  association list; \<open>dict_set\<close> is \<^verbatim>\<open>d[k] = v\<close> (an existing key keeps its
  position). Floats are idealised as reals.
\<close>

datatype json =
    JNull
  | JBool bool
  | JInt int
  | JFloat real
  | JStr string
  | JArr "json list"
  | JObj "(string \<times> json) list"

type_synonym dict = "(string \<times> json) list"

datatype py_error =
    ValueError
  | AttributeError
  | IndexError
  | KeyError
  | TypeError
  | RuntimeError
  | RequestException
  | OSError

text \<open>Python truthiness, as used by \<^verbatim>\<open>if x\<close>, \<^verbatim>\<open>not x\<close> and \<^verbatim>\<open>x or y\<close>.\<close>

fun truthy :: "json \<Rightarrow> bool" where
  "truthy JNull = False"
| "truthy (JBool b) = b"
| "truthy (JInt i) = (i \<noteq> 0)"
| "truthy (JFloat x) = (x \<noteq> 0)"
| "truthy (JStr s) = (s \<noteq> [])"
| "truthy (JArr xs) = (xs \<noteq> [])"
| "truthy (JObj kvs) = (kvs \<noteq> [])"

definition dict_get :: "dict \<Rightarrow> string \<Rightarrow> json \<Rightarrow> json" where
  "dict_get d k dflt = (case map_of d k of Some v \<Rightarrow> v | None \<Rightarrow> dflt)"

fun dict_set :: "string \<Rightarrow> json \<Rightarrow> dict \<Rightarrow> dict" where
  "dict_set k v [] = [(k, v)]"
| "dict_set k v ((k', v') # d) =
     (if k' = k then (k, v) # d else (k', v') # dict_set k v d)"

definition keys :: "dict \<Rightarrow> string list" where
  "keys d = map fst d"

text \<open>
  \<^verbatim>\<open>x.get(k, default)\<close> on a value of unknown type: only a \<^verbatim>\<open>dict\<close> has
  \<^verbatim>\<open>.get\<close>; on every other JSON value Python raises \<^verbatim>\<open>AttributeError\<close>.
\<close>

fun py_get :: "json \<Rightarrow> string \<Rightarrow> json \<Rightarrow> py_error + json" where
  "py_get (JObj d) k dflt = Inr (dict_get d k dflt)"
| "py_get _ k dflt = Inl AttributeError"

definition then_do :: "'e + 'a \<Rightarrow> ('a \<Rightarrow> 'e + 'b) \<Rightarrow> 'e + 'b" where
  "then_do m f = (case m of Inl e \<Rightarrow> Inl e | Inr x \<Rightarrow> f x)"

section \<open>Response Extractor: \<^verbatim>\<open>safe_json_loads\<close>\<close>

text \<open>
  \<^verbatim>\<open>re.search(r'(\{.*\})', s, re.DOTALL)\<close>: the leftmost position where the pattern
  matches, and there the greedy (longest) match. \<open>upto_last_close\<close> is \<^verbatim>\<open>.*\}\<close>
  anchored at the head of its argument, \<open>match_here\<close> the whole pattern anchored.
\<close>

fun upto_last_close :: "string \<Rightarrow> string option" where
  "upto_last_close [] = None"
| "upto_last_close (c # cs) =
     (case upto_last_close cs of
        Some m \<Rightarrow> Some (c # m)
      | None \<Rightarrow> if c = CHR ''}'' then Some [c] else None)"

fun match_here :: "string \<Rightarrow> string option" where
  "match_here [] = None"
| "match_here (c # cs) =
     (if c = CHR ''{'' then map_option ((#) c) (upto_last_close cs) else None)"

fun re_search :: "string \<Rightarrow> string option" where
  "re_search [] = None"
| "re_search (c # cs) =
     (case match_here (c # cs) of Some m \<Rightarrow> Some m | None \<Rightarrow> re_search cs)"

text \<open>
  \<open>loads\<close> stands for \<^verbatim>\<open>json.loads\<close> of the Python standard library, a parameter:
  \<open>None\<close> when it raises. Every exception inside the \<^verbatim>\<open>try\<close> is re-raised as
  \<^verbatim>\<open>ValueError\<close>, as is the empty input before it.
\<close>

definition safe_json_loads :: "(string \<Rightarrow> json option) \<Rightarrow> string \<Rightarrow> py_error + json" where
  "safe_json_loads loads s =
     (if s = [] then Inl ValueError
      else case (case re_search s of Some m \<Rightarrow> loads m | None \<Rightarrow> loads s) of
             Some v \<Rightarrow> Inr v
           | None \<Rightarrow> Inl ValueError)"

text \<open>
  The span as the specification words it: from the first \<^verbatim>\<open>{\<close> of the text to the last
  \<^verbatim>\<open>}\<close> of the text, when the latter comes after the former.
\<close>

definition first_to_last_brace :: "string \<Rightarrow> string option" where
  "first_to_last_brace s =
     (let r = dropWhile (\<lambda>c. c \<noteq> CHR ''{'') s in
      if r = [] then None
      else let t = rev (dropWhile (\<lambda>c. c \<noteq> CHR ''}'') (rev (tl r))) in
           if t = [] then None else Some (CHR ''{'' # t))"

subsection \<open>A concrete \<^verbatim>\<open>json.loads\<close> on a fragment of JSON\<close>

text \<open>
  For evaluating the extractor on concrete texts: a parser for JSON without fractions,
  exponents and string escapes. It accepts only texts that \<^verbatim>\<open>json.loads\<close> accepts,
  with the same value; duplicate keys keep the last value, as in Python. The fuel bounds
  the nesting and is taken to be the length of the text.
\<close>

definition is_ws :: "char \<Rightarrow> bool" where
  "is_ws c = (c = CHR '' '' \<or> c = CHR 0x09 \<or> c = CHR 0x0A \<or> c = CHR 0x0D)"

definition skip_ws :: "string \<Rightarrow> string" where
  "skip_ws s = dropWhile is_ws s"

definition is_digit :: "char \<Rightarrow> bool" where
  "is_digit c = (48 \<le> (of_char c :: nat) \<and> (of_char c :: nat) \<le> 57)"

definition digit_val :: "char \<Rightarrow> int" where
  "digit_val c = int (of_char c) - 48"

fun starts_with :: "string \<Rightarrow> string \<Rightarrow> bool" where
  "starts_with [] s = True"
| "starts_with (p # ps) [] = False"
| "starts_with (p # ps) (c # cs) = (p = c \<and> starts_with ps cs)"

fun parse_string_body :: "string \<Rightarrow> (string \<times> string) option" where
  "parse_string_body [] = None"
| "parse_string_body (c # cs) =
     (if c = CHR 0x22 then Some ([], cs)
      else if c = CHR 0x5C \<or> (of_char c :: nat) < 32 then None
      else map_option (\<lambda>(s, r). (c # s, r)) (parse_string_body cs))"

definition parse_nat :: "string \<Rightarrow> (int \<times> string) option" where
  "parse_nat s =
     (let ds = takeWhile is_digit s in
      if ds = [] then None
      else if hd ds = CHR ''0'' then Some (0, tl s)
      else Some (foldl (\<lambda>a c. 10 * a + digit_val c) 0 ds, dropWhile is_digit s))"

definition parse_int :: "string \<Rightarrow> (json \<times> string) option" where
  "parse_int s =
     (case (if starts_with ''-'' s then map_option (\<lambda>(n, r). (- n, r)) (parse_nat (tl s))
            else parse_nat s) of
        None \<Rightarrow> None
      | Some (n, r) \<Rightarrow>
          if starts_with ''.'' r \<or> starts_with ''e'' r \<or> starts_with ''E'' r then None
          else Some (JInt n, r))"

fun parse_value :: "nat \<Rightarrow> string \<Rightarrow> (json \<times> string) option"
  and parse_elements :: "nat \<Rightarrow> string \<Rightarrow> (json list \<times> string) option"
  and parse_members :: "nat \<Rightarrow> dict \<Rightarrow> string \<Rightarrow> (dict \<times> string) option" where
  "parse_value 0 s = None"
| "parse_value (Suc n) s =
     (if starts_with ''{'' s then
        (if starts_with ''}'' (skip_ws (tl s)) then Some (JObj [], tl (skip_ws (tl s)))
         else map_option (\<lambda>(d, r). (JObj d, r)) (parse_members n [] (tl s)))
      else if starts_with ''['' s then
        (if starts_with '']'' (skip_ws (tl s)) then Some (JArr [], tl (skip_ws (tl s)))
         else map_option (\<lambda>(vs, r). (JArr vs, r)) (parse_elements n (tl s)))
      else if starts_with [CHR 0x22] s then
        map_option (\<lambda>(t, r). (JStr t, r)) (parse_string_body (tl s))
      else if starts_with ''null'' s then Some (JNull, drop 4 s)
      else if starts_with ''true'' s then Some (JBool True, drop 4 s)
      else if starts_with ''false'' s then Some (JBool False, drop 5 s)
      else parse_int s)"
| "parse_elements 0 s = None"
| "parse_elements (Suc n) s =
     (case parse_value n (skip_ws s) of
        None \<Rightarrow> None
      | Some (v, r) \<Rightarrow>
          if starts_with '','' (skip_ws r) then
            map_option (\<lambda>(vs, r'). (v # vs, r')) (parse_elements n (tl (skip_ws r)))
          else if starts_with '']'' (skip_ws r) then Some ([v], tl (skip_ws r))
          else None)"
| "parse_members 0 acc s = None"
| "parse_members (Suc n) acc s =
     (if starts_with [CHR 0x22] (skip_ws s) then
        (case parse_string_body (tl (skip_ws s)) of
           None \<Rightarrow> None
         | Some (k, r1) \<Rightarrow>
             if starts_with '':'' (skip_ws r1) then
               (case parse_value n (skip_ws (tl (skip_ws r1))) of
                  None \<Rightarrow> None
                | Some (v, r3) \<Rightarrow>
                    if starts_with '','' (skip_ws r3) then
                      parse_members n (dict_set k v acc) (tl (skip_ws r3))
                    else if starts_with ''}'' (skip_ws r3) then
                      Some (dict_set k v acc, tl (skip_ws r3))
                    else None)
             else None)
      else None)"

definition json_loads :: "string \<Rightarrow> json option" where
  "json_loads s =
     (case parse_value (length s) (skip_ws s) of
        None \<Rightarrow> None
      | Some (v, r) \<Rightarrow> if skip_ws r = [] then Some v else None)"

section \<open>Transport Client: \<^verbatim>\<open>_query\<close>\<close>

text \<open>
  The endpoint, the clock and the log are the environment. A \<open>world\<close> holds what the
  endpoint answers to the \<open>i\<close>-th POST of a classification (\<open>net\<close>), the number of
  POSTs issued so far, the sequence of POSTs and sleeps performed, and the number of
  warnings logged. The request payload, the URL and the timeout are built once per
  record (lines 86 to 99) and only reach \<^verbatim>\<open>session.post\<close>, whose outcome the
  environment decides; they are not part of the model.

  An outcome of \<^verbatim>\<open>session.post\<close> is an exception (\<open>Fault\<close>) or a response with its
  status code and the value of \<^verbatim>\<open>r.json()\<close> (\<open>None\<close> when that raises).
\<close>

datatype http_outcome = Fault | Response int "json option"

datatype event = Post | Sleep nat

record world =
  net :: "nat \<Rightarrow> http_outcome"
  posts :: nat
  trace :: "event list"
  warnings :: nat

definition post :: "world \<Rightarrow> http_outcome \<times> world" where
  "post w = (net w (posts w), w\<lparr>posts := Suc (posts w), trace := trace w @ [Post]\<rparr>)"

definition sleep :: "nat \<Rightarrow> world \<Rightarrow> world" where
  "sleep d w = w\<lparr>trace := trace w @ [Sleep d]\<rparr>"

definition log_warning :: "world \<Rightarrow> world" where
  "log_warning w = w\<lparr>warnings := Suc (warnings w)\<rparr>"

text \<open>\<^verbatim>\<open>x[0]\<close> on a JSON value.\<close>

fun first_item :: "json \<Rightarrow> py_error + json" where
  "first_item (JArr []) = Inl IndexError"
| "first_item (JArr (x # xs)) = Inr x"
| "first_item (JStr []) = Inl IndexError"
| "first_item (JStr (c # cs)) = Inr (JStr [c])"
| "first_item (JObj d) = Inl KeyError"
| "first_item _ = Inl TypeError"

text \<open>
  \<^verbatim>\<open>str.strip()\<close>: the whitespace characters of Python among the code points below 256.
\<close>

definition is_space :: "char \<Rightarrow> bool" where
  "is_space c =
     (let n = (of_char c :: nat)
      in (9 \<le> n \<and> n \<le> 13) \<or> (28 \<le> n \<and> n \<le> 32) \<or> n = 133 \<or> n = 160)"

definition strip :: "string \<Rightarrow> string" where
  "strip s = rev (dropWhile is_space (rev (dropWhile is_space s)))"

text \<open>
  The body of the \<^verbatim>\<open>try\<close> of one attempt (lines 25 to 38): \<open>Inl\<close> an exception, which
  the \<^verbatim>\<open>except\<close> logs as a warning; \<open>Inr None\<close> when the content is falsy and the
  attempt falls through; \<open>Inr (Some s)\<close> when the attempt returns \<open>s\<close>.
\<close>

definition response_content :: "http_outcome \<Rightarrow> py_error + string option" where
  "response_content r =
     (case r of
        Fault \<Rightarrow> Inl RequestException
      | Response code body \<Rightarrow>
          if code \<noteq> 200 then Inl RuntimeError
          else case body of
                 None \<Rightarrow> Inl ValueError
               | Some data \<Rightarrow>
                   then_do (py_get data ''choices'' (JArr [JObj []])) (\<lambda>choices.
                   then_do (first_item choices) (\<lambda>choice.
                   then_do (py_get choice ''message'' (JObj [])) (\<lambda>message.
                   then_do (py_get message ''content'' (JStr [])) (\<lambda>content.
                     if truthy content then
                       (case content of
                          JStr s \<Rightarrow> Inr (Some (strip s))
                        | _ \<Rightarrow> Inl AttributeError)
                     else Inr None)))))"

text \<open>The loop \<^verbatim>\<open>for attempt in range(1, attempts + 1)\<close>, over the attempt numbers left.\<close>

fun query_loop :: "int list \<Rightarrow> nat \<Rightarrow> world \<Rightarrow> string option \<times> world" where
  "query_loop [] delay w = (None, w)"
| "query_loop (attempt # rest) delay w =
     (case post w of
        (r, w1) \<Rightarrow>
          (case response_content r of
             Inr (Some s) \<Rightarrow> (Some s, w1)
           | Inr None \<Rightarrow> query_loop rest delay (sleep delay w1)
           | Inl e \<Rightarrow> query_loop rest delay (sleep delay (log_warning w1))))"

definition query :: "int \<Rightarrow> nat \<Rightarrow> world \<Rightarrow> string option \<times> world" where
  "query attempts delay w = query_loop [1..attempts] delay w"

section \<open>Classifier: \<^verbatim>\<open>CVEClassifier.classify\<close>\<close>

text \<open>
  The fields of the classifier that \<^verbatim>\<open>classify\<close> reads after the payload is built.
  The output template maps a final field name to the model-side field name.
\<close>

record classifier =
  attempts :: int
  retry_delay :: nat
  output_map :: "(string \<times> string) list"

definition get_cve_id :: "dict \<Rightarrow> string \<Rightarrow> py_error + json" where
  "get_cve_id cve_data cve_id_fallback =
     then_do (py_get (dict_get cve_data ''mitre'' (JObj [])) ''cveMetadata'' (JObj [])) (\<lambda>meta.
     then_do (py_get meta ''cveId'' JNull) (\<lambda>i.
       Inr (if truthy i then i else JStr cve_id_fallback)))"

text \<open>
  The attempt loop (lines 101 to 115). The state is \<^verbatim>\<open>(data, attempts_used)\<close>; a
  \<^verbatim>\<open>break\<close> ends the recursion.
\<close>

fun classify_loop ::
  "(string \<Rightarrow> json option) \<Rightarrow> classifier \<Rightarrow> int list \<Rightarrow> json option \<times> int \<Rightarrow> world
     \<Rightarrow> (json option \<times> int) \<times> world" where
  "classify_loop loads c [] st w = (st, w)"
| "classify_loop loads c (attempt # rest) st w =
     (case query (attempts c) (retry_delay c) w of
        (raw, w1) \<Rightarrow>
          if raw = None \<or> raw = Some [] then classify_loop loads c rest (fst st, attempt) w1
          else (case safe_json_loads loads (the raw) of
                  Inr d \<Rightarrow> ((Some d, attempt), w1)
                | Inl e \<Rightarrow>
                    classify_loop loads c rest (fst st, attempt) (sleep (retry_delay c) w1)))"

text \<open>
  \<^verbatim>\<open>round(time.time() - start_time, 2)\<close> on the two readings of the clock, with ties to
  the even neighbour.
\<close>

definition round_half_even :: "real \<Rightarrow> int" where
  "round_half_even y =
     (let f = \<lfloor>y\<rfloor>; d = y - of_int f
      in if d < 1 / 2 then f else if 1 / 2 < d then f + 1 else if even f then f else f + 1)"

definition execution_time :: "real \<Rightarrow> real \<Rightarrow> json" where
  "execution_time t_start t_end = JFloat (of_int (round_half_even ((t_end - t_start) * 100)) / 100)"

fun contains :: "string \<Rightarrow> string \<Rightarrow> bool" where
  "contains x [] = (x = [])"
| "contains x (c # cs) = (starts_with x (c # cs) \<or> contains x cs)"

definition default_val :: "string \<Rightarrow> json" where
  "default_val final_key =
     (if contains ''Vendors'' final_key \<or> contains ''Products'' final_key then JArr [] else JNull)"

text \<open>The projection through the template (lines 125 to 130).\<close>

fun project :: "(string \<times> string) list \<Rightarrow> json \<Rightarrow> dict \<Rightarrow> py_error + dict" where
  "project [] data result = Inr result"
| "project ((final_key, ai_key) # om) data result =
     (if final_key = ''CVE_ID'' then project om data result
      else then_do (py_get data ai_key (default_val final_key)) (\<lambda>v.
             project om data (dict_set final_key v result)))"

definition error_result :: "json \<Rightarrow> int \<Rightarrow> json \<Rightarrow> dict" where
  "error_result cve_id attempts_used etime =
     dict_set ''execution_time_seconds'' etime
       (dict_set ''attempts'' (JInt attempts_used)
         (dict_set ''error'' (JBool True) [(''CVE_ID'', cve_id)]))"

text \<open>Lines 119 to 135: the result built from what the loop left in \<^verbatim>\<open>data\<close>.\<close>

definition build_result ::
  "classifier \<Rightarrow> json \<Rightarrow> json option \<Rightarrow> int \<Rightarrow> json \<Rightarrow> py_error + dict" where
  "build_result c cve_id data attempts_used etime =
     (if data = None \<or> \<not> truthy (the data) then Inr (error_result cve_id attempts_used etime)
      else then_do (project (output_map c) (the data) [(''CVE_ID'', cve_id)]) (\<lambda>result.
             Inr (dict_set ''attempts'' (JInt attempts_used)
                   (dict_set ''execution_time_seconds'' etime result))))"

text \<open>
  \<^verbatim>\<open>classify\<close>: \<open>t_start\<close> and \<open>t_end\<close> are the two readings of \<^verbatim>\<open>time.time()\<close>.
  \<open>Inl\<close> is an exception that leaves \<^verbatim>\<open>classify\<close>.
\<close>

definition classify ::
  "(string \<Rightarrow> json option) \<Rightarrow> classifier \<Rightarrow> dict \<Rightarrow> string \<Rightarrow> real \<Rightarrow> real \<Rightarrow> world
     \<Rightarrow> (py_error + dict) \<times> world" where
  "classify loads c cve_data cve_id_fallback t_start t_end w =
     (case get_cve_id cve_data cve_id_fallback of
        Inl e \<Rightarrow> (Inl e, w)
      | Inr cve_id \<Rightarrow>
          (case classify_loop loads c [1..attempts c] (None, 0) w of
             ((data, attempts_used), w') \<Rightarrow>
               (build_result c cve_id data attempts_used (execution_time t_start t_end), w')))"

subsection \<open>The two shapes of a classification result\<close>

text \<open>
  The shapes as the specification words them, over a list of declared field names. A
  success result holds the identifier, every declared field, the elapsed time and the
  attempts, and no error field; an error result holds the identifier, the error flag,
  the attempts and the elapsed time, and no declared field. The template declares its
  final field names; \<^verbatim>\<open>classify\<close> treats the name \<^verbatim>\<open>CVE_ID\<close> apart (line 126), and
  \<open>declared_fields\<close> leaves it out.
\<close>

definition has_key :: "dict \<Rightarrow> string \<Rightarrow> bool" where
  "has_key d k = (k \<in> set (keys d))"

definition success_shape :: "string list \<Rightarrow> dict \<Rightarrow> bool" where
  "success_shape names r =
     (has_key r ''CVE_ID'' \<and> list_all (has_key r) names \<and>
      has_key r ''execution_time_seconds'' \<and> has_key r ''attempts'' \<and> \<not> has_key r ''error'')"

definition error_shape :: "string list \<Rightarrow> dict \<Rightarrow> bool" where
  "error_shape names r =
     (has_key r ''CVE_ID'' \<and> has_key r ''error'' \<and> has_key r ''attempts'' \<and>
      has_key r ''execution_time_seconds'' \<and> list_all (\<lambda>k. \<not> has_key r k) names)"

definition declared_fields :: "(string \<times> string) list \<Rightarrow> string list" where
  "declared_fields om = filter (\<lambda>k. k \<noteq> ''CVE_ID'') (map fst om)"

section \<open>Orchestrator: \<^verbatim>\<open>process_file_group\<close> and the loop of \<^verbatim>\<open>main\<close>\<close>

text \<open>
  The file system and the string formatting of identifiers are the environment:
  \<open>load_json\<close> is \<^verbatim>\<open>open\<close> followed by \<^verbatim>\<open>json.load\<close> on a path (\<open>None\<close> when
  either raises), \<open>write_output\<close> says how the write of an output file at a path ends
  (lines 193 to 197),
  \<open>failed_log_ok\<close> whether the failure list can be written, and \<open>py_str\<close> is the text
  that an f-string gives for an identifier.
\<close>

text \<open>
  The write either succeeds, or raises at one of three stages: in \<^verbatim>\<open>open\<close>, which
  leaves the file as it was; in \<^verbatim>\<open>json.dump\<close> or \<^verbatim>\<open>f.flush\<close>, which leaves the file
  truncated; or in \<^verbatim>\<open>os.fsync\<close> or the closing of the file, after the whole document
  was written and flushed, which leaves the file complete.
\<close>

datatype write_outcome = Written | OpenFailed | WriteFailed | SyncFailed

datatype file_content = Complete dict | Truncated

record env =
  load_json :: "string \<Rightarrow> json option"
  write_output :: "string \<Rightarrow> write_outcome"
  failed_log_ok :: bool
  py_str :: "json \<Rightarrow> string"

text \<open>\<^verbatim>\<open>os.path.join\<close> of two components on a POSIX system.\<close>

definition path_join :: "string \<Rightarrow> string \<Rightarrow> string" where
  "path_join a b =
     (if starts_with ''/'' b then b
      else if a = [] \<or> last a = CHR ''/'' then a @ b
      else a @ ''/'' @ b)"

text \<open>
  The loop \<^verbatim>\<open>for t in ["nvd", "mitre"]\<close> of \<^verbatim>\<open>process_file_group\<close> (lines 83 to 92).
  A file that cannot be read or parsed is logged as a warning and its tag is left out
  of \<^verbatim>\<open>combined\<close>; the loop goes on.
\<close>

fun load_sources ::
  "env \<Rightarrow> string \<Rightarrow> (string \<times> string) list \<Rightarrow> string list \<Rightarrow> dict \<times> world \<Rightarrow> dict \<times> world" where
  "load_sources E base_dir file_map [] st = st"
| "load_sources E base_dir file_map (t # ts) (combined, w) =
     (case map_of file_map t of
        None \<Rightarrow> load_sources E base_dir file_map ts (combined, w)
      | Some fname \<Rightarrow>
          if fname = [] then load_sources E base_dir file_map ts (combined, w)
          else (case load_json E (path_join base_dir fname) of
                  Some doc \<Rightarrow> load_sources E base_dir file_map ts (dict_set t doc combined, w)
                | None \<Rightarrow> load_sources E base_dir file_map ts (combined, log_warning w)))"

text \<open>
  \<^verbatim>\<open>process_file_group\<close>: \<open>Inr None\<close> is the return value \<^verbatim>\<open>None\<close>, \<open>Inl\<close> an
  exception that leaves the function (and is raised again by \<^verbatim>\<open>future.result()\<close>).
\<close>

definition process_file_group ::
  "(string \<Rightarrow> json option) \<Rightarrow> env \<Rightarrow> classifier \<Rightarrow> string \<Rightarrow> (string \<times> string) list \<Rightarrow> string
     \<Rightarrow> real \<Rightarrow> real \<Rightarrow> world \<Rightarrow> (py_error + dict option) \<times> world" where
  "process_file_group loads E c base file_map base_dir t_start t_end w =
     (case load_sources E base_dir file_map [''nvd'', ''mitre''] ([], w) of
        (combined, w1) \<Rightarrow>
          if combined = [] then (Inr None, w1)
          else (case classify loads c combined base t_start t_end w1 of
                  (Inl e, w2) \<Rightarrow> (Inl e, w2)
                | (Inr r, w2) \<Rightarrow> (Inr (Some r), w2)))"

text \<open>
  The state of the thread that drains the completed futures (lines 167 to 209): the
  failure list, the output files on disk, and the numbers of warnings and errors logged.
\<close>

record run_state =
  failed_cves :: "json list"
  files :: "string \<Rightarrow> file_content option"
  log_warnings :: nat
  log_errors :: nat

definition log_error :: "run_state \<Rightarrow> run_state" where
  "log_error st = st\<lparr>log_errors := Suc (log_errors st)\<rparr>"

text \<open>
  The body of the loop over \<^verbatim>\<open>as_completed(futures)\<close> for one future, given what
  \<^verbatim>\<open>future.result()\<close> yields. A \<^verbatim>\<open>KeyError\<close> of \<^verbatim>\<open>r["CVE_ID"]\<close> is caught by
  the outer \<^verbatim>\<open>except\<close>, which logs an error.
\<close>

definition handle_future :: "env \<Rightarrow> string \<Rightarrow> py_error + dict option \<Rightarrow> run_state \<Rightarrow> run_state" where
  "handle_future E out_dir fut st =
     (case fut of
        Inl e \<Rightarrow> log_error st
      | Inr None \<Rightarrow> st
      | Inr (Some r) \<Rightarrow>
          if r = [] then st
          else if truthy (dict_get r ''error'' JNull) then
            (case map_of r ''CVE_ID'' of
               None \<Rightarrow> log_error st
             | Some cve_id \<Rightarrow> st\<lparr>failed_cves := failed_cves st @ [cve_id]\<rparr>)
          else
            (case map_of r ''CVE_ID'' of
               None \<Rightarrow> log_error st
             | Some cve_id \<Rightarrow>
                 let out_path = path_join out_dir (py_str E cve_id @ ''.json'') in
                 (case write_output E out_path of
                    Written \<Rightarrow> st\<lparr>files := (files st)(out_path \<mapsto> Complete r)\<rparr>
                  | OpenFailed \<Rightarrow> st\<lparr>log_warnings := Suc (log_warnings st)\<rparr>
                  | WriteFailed \<Rightarrow>
                      st\<lparr>files := (files st)(out_path \<mapsto> Truncated),
                         log_warnings := Suc (log_warnings st)\<rparr>
                  | SyncFailed \<Rightarrow>
                      st\<lparr>files := (files st)(out_path \<mapsto> Complete r),
                         log_warnings := Suc (log_warnings st)\<rparr>)))"


text \<open>
  A task is one group with the environment of its classification: the answers of the
  endpoint to it and its two clock readings. The worker pool runs the tasks
  concurrently; the list \<open>tasks\<close> below is in the order of completion.
\<close>

record task =
  base :: string
  file_map :: "(string \<times> string) list"
  task_world :: world
  t_start :: real
  t_end :: real





section \<open>Concrete environments\<close>

text \<open>
  Environments for evaluating the model on concrete runs: a response of the endpoint
  carrying a given assistant message, an endpoint that gives the same outcome to every
  POST, one that gives a first outcome once and a second one afterwards, and the world
  at the start of a classification.
\<close>

definition chat_reply :: "string \<Rightarrow> http_outcome" where
  "chat_reply s =
     Response 200
       (Some (JObj [(''choices'', JArr [JObj [(''message'', JObj [(''content'', JStr s)])]])]))"

definition always :: "http_outcome \<Rightarrow> nat \<Rightarrow> http_outcome" where
  "always r i = r"

definition first_then :: "http_outcome \<Rightarrow> http_outcome \<Rightarrow> nat \<Rightarrow> http_outcome" where
  "first_then a b i = (if i = 0 then a else b)"

definition fresh_world :: "(nat \<Rightarrow> http_outcome) \<Rightarrow> world" where
  "fresh_world f = \<lparr>net = f, posts = 0, trace = [], warnings = 0\<rparr>"

text \<open>
  File systems for concrete runs: one with no readable file, one with a single readable
  file, one in which every path holds the same document; an environment over a file system in which every write of an output file ends
  the same way; and the state of a run before any future completes, on an empty output
  directory. \<open>str_of_id\<close> is the text of an identifier that is a string, which is the
  only kind in these runs.
\<close>

definition str_of_id :: "json \<Rightarrow> string" where
  "str_of_id j = (case j of JStr s \<Rightarrow> s | _ \<Rightarrow> [])"

definition no_file :: "string \<Rightarrow> json option" where
  "no_file p = None"

definition only_file :: "string \<Rightarrow> json \<Rightarrow> string \<Rightarrow> json option" where
  "only_file path doc p = (if p = path then Some doc else None)"


definition test_env :: "(string \<Rightarrow> json option) \<Rightarrow> write_outcome \<Rightarrow> env" where
  "test_env load wr =
     \<lparr>load_json = load, write_output = (\<lambda>p. wr), failed_log_ok = True, py_str = str_of_id\<rparr>"

definition no_output :: "string \<Rightarrow> file_content option" where
  "no_output p = None"

definition empty_run :: run_state where
  "empty_run = \<lparr>failed_cves = [], files = no_output, log_warnings = 0, log_errors = 0\<rparr>"

section \<open>The extractor parses the greedy brace span\<close>

lemma upto_last_close_None: "upto_last_close cs = None \<longleftrightarrow> CHR ''}'' \<notin> set cs"
  by (induction cs) (auto split: option.splits)

lemma upto_last_close_eq:
  "upto_last_close cs =
     (let t = rev (dropWhile (\<lambda>c. c \<noteq> CHR ''}'') (rev cs)) in if t = [] then None else Some t)"
proof (induction cs)
  case Nil
  then show ?case by simp
next
  case (Cons c cs)
  show ?case
  proof (cases "CHR ''}'' \<in> set cs")
    case True
    then have "dropWhile (\<lambda>c. c \<noteq> CHR ''}'') (rev cs @ [c]) =
        dropWhile (\<lambda>c. c \<noteq> CHR ''}'') (rev cs) @ [c]"
      by (intro dropWhile_append1[where x = "CHR ''}''"]) auto
    moreover from True have "upto_last_close cs \<noteq> None"
      by (simp add: upto_last_close_None)
    ultimately show ?thesis
      using Cons by (auto simp: Let_def split: option.splits if_splits)
  next
    case False
    then have "dropWhile (\<lambda>c. c \<noteq> CHR ''}'') (rev cs @ [c]) = dropWhile (\<lambda>c. c \<noteq> CHR ''}'') [c]"
      by (intro dropWhile_append2) auto
    moreover from False have "upto_last_close cs = None"
      by (simp add: upto_last_close_None)
    ultimately show ?thesis by (auto simp: Let_def)
  qed
qed

lemma re_search_no_close: "CHR ''}'' \<notin> set cs \<Longrightarrow> re_search cs = None"
proof (induction cs)
  case Nil
  then show ?case by simp
next
  case (Cons c cs)
  then have "upto_last_close cs = None" by (simp add: upto_last_close_None)
  with Cons show ?case by simp
qed

lemma re_search_span: "re_search s = first_to_last_brace s"
proof (induction s)
  case Nil
  then show ?case by (simp add: first_to_last_brace_def)
next
  case (Cons c cs)
  show ?case
  proof (cases "c = CHR ''{''")
    case True
    show ?thesis
    proof (cases "upto_last_close cs")
      case None
      then have "re_search cs = None"
        by (simp add: upto_last_close_None re_search_no_close)
      with None True show ?thesis
        using upto_last_close_eq[of cs]
        by (auto simp: first_to_last_brace_def Let_def split: if_splits)
    next
      case (Some m)
      with True show ?thesis
        using upto_last_close_eq[of cs]
        by (simp add: first_to_last_brace_def Let_def split: if_splits)
    qed
  next
    case False
    with Cons show ?thesis by (simp add: first_to_last_brace_def)
  qed
qed

lemma dropWhile_upto: "a \<notin> set xs \<Longrightarrow> dropWhile (\<lambda>c. c \<noteq> a) (xs @ a # ys) = a # ys"
  by (induction xs) auto

lemma span_embedded:
  assumes "CHR ''{'' \<notin> set pre" and "CHR ''}'' \<notin> set suf"
  shows "first_to_last_brace (pre @ CHR ''{'' # mid @ CHR ''}'' # suf) =
    Some (CHR ''{'' # mid @ [CHR ''}''])"
proof -
  have a: "dropWhile (\<lambda>c. c \<noteq> CHR ''{'') (pre @ CHR ''{'' # mid @ CHR ''}'' # suf) =
      CHR ''{'' # mid @ CHR ''}'' # suf"
    using assms(1) by (rule dropWhile_upto)
  have "CHR ''}'' \<notin> set (rev suf)"
    using assms(2) by simp
  then have "dropWhile (\<lambda>c. c \<noteq> CHR ''}'') (rev suf @ CHR ''}'' # rev mid) = CHR ''}'' # rev mid"
    by (rule dropWhile_upto)
  then have b: "rev (dropWhile (\<lambda>c. c \<noteq> CHR ''}'') (rev (mid @ CHR ''}'' # suf))) = mid @ [CHR ''}'']"
    by simp
  show ?thesis
    unfolding first_to_last_brace_def a Let_def using b by simp
qed

lemma safe_json_loads_span:
  "safe_json_loads loads s =
     (if s = [] then Inl ValueError
      else case loads (case first_to_last_brace s of Some m \<Rightarrow> m | None \<Rightarrow> s) of
             Some v \<Rightarrow> Inr v
           | None \<Rightarrow> Inl ValueError)"
  by (simp add: safe_json_loads_def re_search_span split: option.splits)

text \<open>
  Claim C3, as amended. The extractor fails on the empty string, whatever the parser.
  On a non-empty string it parses the span from the first opening brace of the text to
  the last closing brace of the text, or the whole string when there is no such span, and
  fails when that does not parse. So a valid JSON object embedded in prose is returned
  when the prose before it holds no opening brace and the prose after it holds no
  closing brace.
\<close>

theorem safe_json_loads_extracts_span:
  "safe_json_loads loads [] = Inl ValueError \<and>
   (s \<noteq> [] \<longrightarrow>
      safe_json_loads loads s =
        (case loads (case first_to_last_brace s of Some m \<Rightarrow> m | None \<Rightarrow> s) of
           Some v \<Rightarrow> Inr v
         | None \<Rightarrow> Inl ValueError)) \<and>
   (CHR ''{'' \<notin> set pre \<and> CHR ''}'' \<notin> set suf \<and>
    loads (CHR ''{'' # mid @ [CHR ''}'']) = Some obj \<longrightarrow>
      safe_json_loads loads (pre @ CHR ''{'' # mid @ CHR ''}'' # suf) = Inr obj)"
proof (intro conjI impI)
  show "safe_json_loads loads [] = Inl ValueError"
    by (simp add: safe_json_loads_def)
next
  assume "s \<noteq> []"
  then show "safe_json_loads loads s =
      (case loads (case first_to_last_brace s of Some m \<Rightarrow> m | None \<Rightarrow> s) of
         Some v \<Rightarrow> Inr v
       | None \<Rightarrow> Inl ValueError)"
    by (simp add: safe_json_loads_span)
next
  assume h: "CHR ''{'' \<notin> set pre \<and> CHR ''}'' \<notin> set suf \<and>
    loads (CHR ''{'' # mid @ [CHR ''}'']) = Some obj"
  then have "first_to_last_brace (pre @ CHR ''{'' # mid @ CHR ''}'' # suf) =
      Some (CHR ''{'' # mid @ [CHR ''}''])"
    by (simp add: span_embedded)
  with h show "safe_json_loads loads (pre @ CHR ''{'' # mid @ CHR ''}'' # suf) = Inr obj"
    by (simp add: safe_json_loads_span)
qed

theorem safe_json_loads_extracts_span_witness:
  "CHR ''{'' \<notin> set ''Sure: '' \<and> CHR ''}'' \<notin> set '' done'' \<and>
   json_loads ''{\"a\": 1}'' = Some (JObj [(''a'', JInt 1)]) \<and>
   safe_json_loads json_loads ''Sure: {\"a\": 1} done'' = Inr (JObj [(''a'', JInt 1)]) \<and>
   safe_json_loads json_loads [] = Inl ValueError"
proof -
  have l: "json_loads ''{\"a\": 1}'' = Some (JObj [(''a'', JInt 1)])"
    by code_simp
  show ?thesis
    using l safe_json_loads_extracts_span[where loads = json_loads and pre = "''Sure: ''"
        and suf = "'' done''" and mid = "''\"a\": 1''" and obj = "JObj [(''a'', JInt 1)]"]
    by simp
qed

text \<open>
  The claim as stated fails: the text below is non-empty and contains the valid JSON
  object \<^verbatim>\<open>{"a": 1}\<close> after a piece of prose that holds braces of its own; the greedy
  span starts at the brace of the prose, and the extractor fails.
\<close>

theorem safe_json_loads_prose_braces_counterexample:
  "json_loads ''{\"a\": 1}'' = Some (JObj [(''a'', JInt 1)]) \<and>
   safe_json_loads json_loads (''{note} '' @ ''{\"a\": 1}'') = Inl ValueError"
  by code_simp

section \<open>The transport client sleeps after failed attempts only\<close>

lemma post_eq:
  "post w = (net w (posts w), w\<lparr>posts := Suc (posts w), trace := trace w @ [Post]\<rparr>)"
  by (simp add: post_def)

lemma query_loop_trace:
  "query_loop as d w = (r, w') \<Longrightarrow>
     \<exists>k. trace w' =
           trace w @ concat (replicate k [Post, Sleep d]) @ (if r = None then [] else [Post]) \<and>
         (r = None \<longrightarrow> k = length as) \<and> (r \<noteq> None \<longrightarrow> k < length as)"
proof (induction as arbitrary: w)
  case Nil
  then show ?case by auto
next
  case (Cons a as)
  let ?w1 = "w\<lparr>posts := Suc (posts w), trace := trace w @ [Post]\<rparr>"
  show ?case
  proof (cases "response_content (net w (posts w))")
    case (Inl e)
    with Cons.prems have "query_loop as d (sleep d (log_warning ?w1)) = (r, w')"
      by (simp add: post_eq)
    from Cons.IH[OF this] obtain k where
      k: "trace w' = trace (sleep d (log_warning ?w1)) @ concat (replicate k [Post, Sleep d]) @
            (if r = None then [] else [Post])"
        "r = None \<longrightarrow> k = length as" "r \<noteq> None \<longrightarrow> k < length as"
      by blast
    show ?thesis
      by (rule exI[of _ "Suc k"]) (use k in \<open>auto simp: sleep_def log_warning_def\<close>)
  next
    case (Inr content)
    show ?thesis
    proof (cases content)
      case None
      with Inr Cons.prems have "query_loop as d (sleep d ?w1) = (r, w')"
        by (simp add: post_eq)
      from Cons.IH[OF this] obtain k where
        k: "trace w' = trace (sleep d ?w1) @ concat (replicate k [Post, Sleep d]) @
              (if r = None then [] else [Post])"
          "r = None \<longrightarrow> k = length as" "r \<noteq> None \<longrightarrow> k < length as"
        by blast
      show ?thesis
        by (rule exI[of _ "Suc k"]) (use k in \<open>auto simp: sleep_def\<close>)
    next
      case (Some s)
      with Inr Cons.prems have "r = Some s" "w' = ?w1"
        by (simp_all add: post_eq)
      then show ?thesis
        by (intro exI[of _ 0]) simp
    qed
  qed
qed

text \<open>
  Claim C6, as amended. A call of the transport client performs some number \<open>k\<close> of
  failed attempts, each a POST followed by a sleep of \<open>delay\<close> seconds, and then either
  returns nothing, after exactly \<open>attempts\<close> failed attempts (the last sleep comes before
  control returns), or ends with one successful POST that is followed by no sleep, after
  fewer than \<open>attempts\<close> failed ones.
\<close>

theorem query_sleeps_after_each_failed_attempt:
  assumes "query n d w = (r, w')"
  shows "\<exists>k. trace w' =
             trace w @ concat (replicate k [Post, Sleep d]) @ (if r = None then [] else [Post]) \<and>
           (r = None \<longrightarrow> int k = max 0 n) \<and> (r \<noteq> None \<longrightarrow> int k < n)"
proof -
  from assms have "query_loop [1..n] d w = (r, w')"
    by (simp add: query_def)
  from query_loop_trace[OF this] obtain k where
    k: "trace w' =
          trace w @ concat (replicate k [Post, Sleep d]) @ (if r = None then [] else [Post])"
      "r = None \<longrightarrow> k = length [1..n]" "r \<noteq> None \<longrightarrow> k < length [1..n]"
    by blast
  show ?thesis
    by (rule exI[of _ k]) (use k in auto)
qed

theorem query_sleeps_after_each_failed_attempt_witness:
  "fst (query 3 2 (fresh_world (first_then Fault (chat_reply ''ok'')))) = Some ''ok'' \<and>
   (\<exists>k. trace (snd (query 3 2 (fresh_world (first_then Fault (chat_reply ''ok''))))) =
          concat (replicate k [Post, Sleep 2]) @ [Post] \<and> int k < 3) \<and>
   trace (snd (query 3 2 (fresh_world (first_then Fault (chat_reply ''ok''))))) =
     [Post, Sleep 2, Post]"
proof -
  let ?W = "fresh_world (first_then Fault (chat_reply ''ok''))"
  have r: "fst (query 3 2 ?W) = Some ''ok''"
    by code_simp
  have t: "trace (snd (query 3 2 ?W)) = [Post, Sleep 2, Post]"
    by code_simp
  have "query 3 2 ?W = (Some ''ok'', snd (query 3 2 ?W))"
    using r by (metis prod.collapse)
  from query_sleeps_after_each_failed_attempt[OF this] r t show ?thesis
    by (simp add: fresh_world_def)
qed

text \<open>
  The claim as stated fails: when the first attempt succeeds, the client returns the
  content at once, and no sleep follows the POST.
\<close>

theorem query_no_sleep_after_success_counterexample:
  "fst (query 3 2 (fresh_world (always (chat_reply ''ok'')))) = Some ''ok'' \<and>
   trace (snd (query 3 2 (fresh_world (always (chat_reply ''ok''))))) = [Post]"
  by code_simp

section \<open>Attempts of the two retry loops\<close>

lemma net_query_loop: "net (snd (query_loop as d w)) = net w"
  by (induction as arbitrary: w)
     (auto simp: post_eq sleep_def log_warning_def split: sum.splits option.splits)

lemma posts_query_loop_le: "posts (snd (query_loop as d w)) \<le> posts w + length as"
proof (induction as arbitrary: w)
  case Nil
  then show ?case by simp
next
  case (Cons a as)
  let ?w1 = "w\<lparr>posts := Suc (posts w), trace := trace w @ [Post]\<rparr>"
  have a: "posts (snd (query_loop as d (sleep d ?w1))) \<le> Suc (posts w) + length as"
    using Cons[of "sleep d ?w1"] by (simp add: sleep_def)
  have b: "posts (snd (query_loop as d (sleep d (log_warning ?w1)))) \<le> Suc (posts w) + length as"
    using Cons[of "sleep d (log_warning ?w1)"] by (simp add: sleep_def log_warning_def)
  show ?case
    using a b by (auto simp: post_eq split: sum.splits option.splits)
qed

lemma query_loop_Some:
  "query_loop as d w = (Some s, w') \<Longrightarrow> \<exists>i. response_content (net w i) = Inr (Some s)"
proof (induction as arbitrary: w)
  case Nil
  then show ?case by simp
next
  case (Cons a as)
  let ?w1 = "w\<lparr>posts := Suc (posts w), trace := trace w @ [Post]\<rparr>"
  show ?case
  proof (cases "response_content (net w (posts w))")
    case (Inl e)
    with Cons.prems have "query_loop as d (sleep d (log_warning ?w1)) = (Some s, w')"
      by (simp add: post_eq)
    from Cons.IH[OF this] show ?thesis by (simp add: sleep_def log_warning_def)
  next
    case (Inr content)
    show ?thesis
    proof (cases content)
      case None
      with Inr Cons.prems have "query_loop as d (sleep d ?w1) = (Some s, w')"
        by (simp add: post_eq)
      from Cons.IH[OF this] show ?thesis by (simp add: sleep_def)
    next
      case (Some s')
      with Inr Cons.prems have "s' = s" by (simp add: post_eq)
      with Inr Some show ?thesis by blast
    qed
  qed
qed

lemma query_loop_all_fail:
  assumes "\<forall>i s. response_content (net w i) \<noteq> Inr (Some s)"
  shows "fst (query_loop as d w) = None \<and> posts (snd (query_loop as d w)) = posts w + length as"
  using assms
proof (induction as arbitrary: w)
  case Nil
  then show ?case by simp
next
  case (Cons a as)
  let ?w1 = "w\<lparr>posts := Suc (posts w), trace := trace w @ [Post]\<rparr>"
  have a: "fst (query_loop as d (sleep d ?w1)) = None \<and>
      posts (snd (query_loop as d (sleep d ?w1))) = Suc (posts w) + length as"
    using Cons.IH[of "sleep d ?w1"] Cons.prems by (simp add: sleep_def)
  have b: "fst (query_loop as d (sleep d (log_warning ?w1))) = None \<and>
      posts (snd (query_loop as d (sleep d (log_warning ?w1)))) = Suc (posts w) + length as"
    using Cons.IH[of "sleep d (log_warning ?w1)"] Cons.prems by (simp add: sleep_def log_warning_def)
  show ?case
  proof (cases "response_content (net w (posts w))")
    case (Inl e)
    then show ?thesis using b by (simp add: post_eq)
  next
    case (Inr content)
    with Cons.prems have "content = None" by (cases content) auto
    with Inr show ?thesis using a by (simp add: post_eq)
  qed
qed

lemma net_query: "net (snd (query n d w)) = net w"
  by (simp add: query_def net_query_loop)

lemma posts_query_le: "posts (snd (query n d w)) \<le> posts w + nat n"
  using posts_query_loop_le[of "[1..n]" d w] by (simp add: query_def)

lemma query_Some: "query n d w = (Some s, w') \<Longrightarrow> \<exists>i. response_content (net w i) = Inr (Some s)"
  unfolding query_def by (rule query_loop_Some)

lemma query_all_fail:
  assumes "\<forall>i s. response_content (net w i) \<noteq> Inr (Some s)"
  shows "fst (query n d w) = None \<and> posts (snd (query n d w)) = posts w + nat n"
  using query_loop_all_fail[OF assms, of "[1..n]" d] by (simp add: query_def)

lemma classify_loop_step:
  "classify_loop loads c (a # rest) st w =
     (let q = query (attempts c) (retry_delay c) w in
      if fst q = None \<or> fst q = Some [] then classify_loop loads c rest (fst st, a) (snd q)
      else (case safe_json_loads loads (the (fst q)) of
              Inr d \<Rightarrow> ((Some d, a), snd q)
            | Inl e \<Rightarrow> classify_loop loads c rest (fst st, a) (sleep (retry_delay c) (snd q))))"
  by (cases "query (attempts c) (retry_delay c) w") (auto simp: Let_def split: sum.splits)

lemma net_classify_loop: "net (snd (classify_loop loads c as st w)) = net w"
proof (induction as arbitrary: st w)
  case Nil
  then show ?case by simp
next
  case (Cons a as)
  have s: "net (sleep (retry_delay c) (snd (query (attempts c) (retry_delay c) w))) = net w"
    by (simp add: sleep_def net_query)
  show ?case
    unfolding classify_loop_step Let_def
    by (auto simp: Cons net_query s split: sum.splits)
qed

lemma posts_classify_loop_le:
  "posts (snd (classify_loop loads c as st w)) \<le> posts w + length as * nat (attempts c)"
proof (induction as arbitrary: st w)
  case Nil
  then show ?case by simp
next
  case (Cons a as)
  let ?q = "query (attempts c) (retry_delay c) w"
  let ?m = "nat (attempts c)"
  have q: "posts (snd ?q) \<le> posts w + ?m"
    by (rule posts_query_le)
  then have q': "posts (snd ?q) \<le> posts w + (?m + length as * ?m)"
    by linarith
  have a: "posts (snd (classify_loop loads c as st' (snd ?q))) \<le>
      posts w + (?m + length as * ?m)" for st'
    using Cons[of st' "snd ?q"] q by linarith
  have b: "posts (snd (classify_loop loads c as st' (sleep (retry_delay c) (snd ?q)))) \<le>
      posts w + (?m + length as * ?m)" for st'
    using Cons[of st' "sleep (retry_delay c) (snd ?q)"] q by (simp add: sleep_def)
  show ?case
    unfolding classify_loop_step Let_def
    using a b q' by (simp split: sum.splits)
qed

lemma classify_loop_rejected:
  assumes "\<forall>i s. response_content (net w i) = Inr (Some s) \<longrightarrow>
             s = [] \<or> (\<forall>v. safe_json_loads loads s \<noteq> Inr v)"
  shows "fst (classify_loop loads c as st w) = (fst st, if as = [] then snd st else last as)"
  using assms
proof (induction as arbitrary: st w)
  case Nil
  then show ?case by simp
next
  case (Cons a as)
  let ?q = "query (attempts c) (retry_delay c) w"
  have n1: "net (snd ?q) = net w" by (simp add: net_query)
  have n2: "net (sleep (retry_delay c) (snd ?q)) = net w" by (simp add: sleep_def net_query)
  have a: "fst (classify_loop loads c as (fst st, a) (snd ?q)) =
      (fst st, if as = [] then a else last as)"
    using Cons.IH[of "snd ?q" "(fst st, a)"] Cons.prems n1 by simp
  have b: "fst (classify_loop loads c as (fst st, a) (sleep (retry_delay c) (snd ?q))) =
      (fst st, if as = [] then a else last as)"
    using Cons.IH[of "sleep (retry_delay c) (snd ?q)" "(fst st, a)"] Cons.prems n2 by simp
  show ?case
  proof (cases "fst ?q = None \<or> fst ?q = Some []")
    case True
    then show ?thesis
      unfolding classify_loop_step Let_def using a by auto
  next
    case False
    then obtain s where s: "fst ?q = Some s" "s \<noteq> []" by (cases "fst ?q") auto
    then have "?q = (Some s, snd ?q)" by (metis prod.collapse)
    from query_Some[OF this] obtain i where "response_content (net w i) = Inr (Some s)" ..
    with Cons.prems s have "\<forall>v. safe_json_loads loads s \<noteq> Inr v" by blast
    then obtain e where "safe_json_loads loads s = Inl e"
      by (cases "safe_json_loads loads s") auto
    with s False show ?thesis
      unfolding classify_loop_step Let_def using b by auto
  qed
qed

lemma posts_classify_loop_all_fail:
  assumes "\<forall>i s. response_content (net w i) \<noteq> Inr (Some s)"
  shows "posts (snd (classify_loop loads c as st w)) = posts w + length as * nat (attempts c)"
  using assms
proof (induction as arbitrary: st w)
  case Nil
  then show ?case by simp
next
  case (Cons a as)
  let ?q = "query (attempts c) (retry_delay c) w"
  have q: "fst ?q = None" "posts (snd ?q) = posts w + nat (attempts c)"
    using query_all_fail[OF Cons.prems] by auto
  have "net (snd ?q) = net w" by (simp add: net_query)
  with Cons.prems have "\<forall>i s. response_content (net (snd ?q) i) \<noteq> Inr (Some s)" by simp
  from Cons.IH[OF this] q show ?case
    unfolding classify_loop_step Let_def by simp
qed


lemma classify_unfold:
  "get_cve_id d fb = Inr cid \<Longrightarrow>
   classify loads c d fb t0 t1 w =
     (build_result c cid (fst (fst (classify_loop loads c [1..attempts c] (None, 0) w)))
        (snd (fst (classify_loop loads c [1..attempts c] (None, 0) w))) (execution_time t0 t1),
      snd (classify_loop loads c [1..attempts c] (None, 0) w))"
  by (simp add: classify_def split: prod.splits)

lemma classify_raised: "get_cve_id d fb = Inl e \<Longrightarrow> classify loads c d fb t0 t1 w = (Inl e, w)"
  by (simp add: classify_def)

lemma posts_classify_le:
  "posts (snd (classify loads c d fb t0 t1 w)) \<le> posts w + nat (attempts c) * nat (attempts c)"
proof (cases "get_cve_id d fb")
  case (Inl e)
  then show ?thesis by (simp add: classify_raised)
next
  case (Inr cid)
  then show ?thesis
    using posts_classify_loop_le[of loads c "[1..attempts c]" "(None, 0)" w]
    by (simp add: classify_unfold)
qed

lemma posts_classify_all_fail:
  assumes "get_cve_id d fb = Inr cid" and "\<forall>i s. response_content (net w i) \<noteq> Inr (Some s)"
  shows "posts (snd (classify loads c d fb t0 t1 w)) = posts w + nat (attempts c) * nat (attempts c)"
  using posts_classify_loop_all_fail[OF assms(2), of loads c "[1..attempts c]" "(None, 0)"] assms(1)
  by (simp add: classify_unfold)

text \<open>
  Claim C5, as amended. The outer attempt loop of the classifier is layered on the
  transport client's loop by plain calls, each with its own counter; the classifier
  passes its single attempt budget \<open>attempts\<close> to the transport client as well, so the
  two budgets are one setting. A classification never issues more than
  \<open>attempts * attempts\<close> POSTs, and issues exactly that many when every POST fails.
\<close>

theorem classify_posts_bound:
  "posts (snd (classify loads c d fb t0 t1 w)) \<le> posts w + nat (attempts c) * nat (attempts c) \<and>
   (get_cve_id d fb = Inr cid \<and> (\<forall>i s. response_content (net w i) \<noteq> Inr (Some s)) \<longrightarrow>
      posts (snd (classify loads c d fb t0 t1 w)) = posts w + nat (attempts c) * nat (attempts c))"
  using posts_classify_le posts_classify_all_fail by blast

lemma get_cve_id_empty: "get_cve_id [] fb = Inr (JStr fb)"
  by (simp add: get_cve_id_def dict_get_def then_do_def)

lemma response_content_Fault: "response_content Fault = Inl RequestException"
  by (simp add: response_content_def)

theorem classify_posts_bound_witness:
  "get_cve_id [] ''CVE-2024-1234'' = Inr (JStr ''CVE-2024-1234'') \<and>
   (\<forall>i s. response_content (net (fresh_world (always Fault)) i) \<noteq> Inr (Some s)) \<and>
   posts (snd (classify json_loads \<lparr>attempts = 3, retry_delay = 2, output_map = []\<rparr> []
                 ''CVE-2024-1234'' 0 1 (fresh_world (always Fault)))) = 9"
proof -
  have a: "get_cve_id [] ''CVE-2024-1234'' = Inr (JStr ''CVE-2024-1234'')"
    by (rule get_cve_id_empty)
  have b: "\<forall>i s. response_content (net (fresh_world (always Fault)) i) \<noteq> Inr (Some s)"
    by (simp add: fresh_world_def always_def response_content_Fault)
  show ?thesis
    using a b classify_posts_bound[where loads = json_loads
        and c = "\<lparr>attempts = 3, retry_delay = 2, output_map = []\<rparr>" and d = "[]"
        and fb = "''CVE-2024-1234''" and ?t0.0 = 0 and ?t1.0 = 1
        and w = "fresh_world (always Fault)" and cid = "JStr ''CVE-2024-1234''"]
    by (simp add: fresh_world_def)
qed

lemma square_not_six: "(n::nat) * n \<noteq> 6"
proof (cases "n \<le> 2")
  case True
  then have "n * n \<le> 2 * 2" by (intro mult_le_mono) auto
  then show ?thesis by simp
next
  case False
  then have "3 * 3 \<le> n * n" by (intro mult_le_mono) auto
  then show ?thesis by simp
qed

text \<open>
  The claim as stated fails: the budgets cannot be set independently. With an outer
  budget of 2 the transport client runs with a budget of 2 as well (4 POSTs in the worst
  case), and no configuration gives an outer budget of 2 with an inner budget of 3: no
  classifier issues 6 POSTs against an endpoint that always fails.
\<close>

theorem classify_single_budget_counterexample:
  "posts (snd (classify json_loads \<lparr>attempts = 2, retry_delay = 0, output_map = []\<rparr> []
                 ''CVE-2024-1234'' 0 1 (fresh_world (always Fault)))) = 4 \<and>
   \<not> (\<exists>c. posts (snd (classify json_loads c [] ''CVE-2024-1234'' 0 1 (fresh_world (always Fault)))) = 2 * 3)"
proof -
  have b: "\<forall>i s. response_content (net (fresh_world (always Fault)) i) \<noteq> Inr (Some s)"
    by (simp add: fresh_world_def always_def response_content_Fault)
  have p: "posts (snd (classify json_loads c [] ''CVE-2024-1234'' 0 1 (fresh_world (always Fault)))) =
      nat (attempts c) * nat (attempts c)" for c
    using posts_classify_all_fail[OF get_cve_id_empty b, of json_loads c "''CVE-2024-1234''" 0 1]
    by (simp add: fresh_world_def)
  show ?thesis
    using square_not_six by (simp add: p)
qed

section \<open>Exhausted budgets and empty objects\<close>

lemma last_range: "1 \<le> n \<Longrightarrow> last [1..n] = n"
  by (simp add: upto_rec2)

lemma range_nonempty: "1 \<le> n \<Longrightarrow> [1..n] \<noteq> []"
  by (simp add: upto_rec2)

lemma build_result_None: "build_result c cid None k t = Inr (error_result cid k t)"
  by (simp add: build_result_def)

lemma build_result_falsy:
  "\<not> truthy v \<Longrightarrow> build_result c cid (Some v) k t = Inr (error_result cid k t)"
  by (simp add: build_result_def)

lemma error_result_eq:
  "error_result cid k t =
     [(''CVE_ID'', cid), (''error'', JBool True), (''attempts'', JInt k),
      (''execution_time_seconds'', t)]"
  by (simp add: error_result_def)

text \<open>
  Where the identifier can be derived, an exhausted budget is reported as expected. Let
  the attempt budget be at least 1 and let every answer of the endpoint be a failed
  transport attempt, an empty text, or a text that the extractor rejects. Then a
  classification whose identifier derivation returns gives the error result, with
  \<open>error\<close> true and \<open>attempts\<close> equal to the budget.
\<close>

theorem classify_exhausted_budget:
  assumes "1 \<le> attempts c"
    and "get_cve_id d fb = Inr cid"
    and "\<forall>i s. response_content (net w i) = Inr (Some s) \<longrightarrow>
           s = [] \<or> (\<forall>v. safe_json_loads loads s \<noteq> Inr v)"
  shows "\<exists>r. fst (classify loads c d fb t0 t1 w) = Inr r \<and>
           r = error_result cid (attempts c) (execution_time t0 t1) \<and>
           map_of r ''error'' = Some (JBool True) \<and>
           map_of r ''attempts'' = Some (JInt (attempts c))"
proof -
  have "fst (classify_loop loads c [1..attempts c] (None, 0) w) = (None, attempts c)"
    using classify_loop_rejected[OF assms(3), of c "[1..attempts c]" "(None, 0)"]
      last_range[OF assms(1)] range_nonempty[OF assms(1)]
    by simp
  then have "fst (classify loads c d fb t0 t1 w) =
      Inr (error_result cid (attempts c) (execution_time t0 t1))"
    using assms(2) by (simp add: classify_unfold build_result_None)
  then show ?thesis
    by (simp add: error_result_eq)
qed

lemma get_cve_id_nvd: "get_cve_id [(''nvd'', JObj [])] fb = Inr (JStr fb)"
  by (simp add: get_cve_id_def dict_get_def then_do_def)

lemma content_oops: "response_content (chat_reply ''oops'') = Inr (Some ''oops'')"
  by code_simp

lemma extract_oops: "safe_json_loads json_loads ''oops'' = Inl ValueError"
  by code_simp

theorem classify_exhausted_budget_witness:
  "(1::int) \<le> 3 \<and>
   get_cve_id [(''nvd'', JObj [])] ''CVE-2024-1234'' = Inr (JStr ''CVE-2024-1234'') \<and>
   response_content (chat_reply ''oops'') = Inr (Some ''oops'') \<and>
   safe_json_loads json_loads ''oops'' = Inl ValueError \<and>
   fst (classify json_loads
          \<lparr>attempts = 3, retry_delay = 2, output_map = [(''Category'', ''category'')]\<rparr>
          [(''nvd'', JObj [])] ''CVE-2024-1234'' 0 1 (fresh_world (always (chat_reply ''oops'')))) =
     Inr [(''CVE_ID'', JStr ''CVE-2024-1234''), (''error'', JBool True), (''attempts'', JInt 3),
          (''execution_time_seconds'', execution_time 0 1)] \<and>
   fst (classify json_loads
          \<lparr>attempts = 3, retry_delay = 2, output_map = [(''Category'', ''category'')]\<rparr>
          [(''nvd'', JObj [])] ''CVE-2024-1234'' 0 1 (fresh_world (always Fault))) =
     Inr [(''CVE_ID'', JStr ''CVE-2024-1234''), (''error'', JBool True), (''attempts'', JInt 3),
          (''execution_time_seconds'', execution_time 0 1)]"
proof -
  let ?c = "\<lparr>attempts = 3, retry_delay = 2, output_map = [(''Category'', ''category'')]\<rparr>"
  have a: "1 \<le> attempts ?c" by simp
  have r1: "\<forall>i s. response_content (net (fresh_world (always (chat_reply ''oops''))) i) = Inr (Some s) \<longrightarrow>
      s = [] \<or> (\<forall>v. safe_json_loads json_loads s \<noteq> Inr v)"
    by (simp add: fresh_world_def always_def content_oops extract_oops)
  have r2: "\<forall>i s. response_content (net (fresh_world (always Fault)) i) = Inr (Some s) \<longrightarrow>
      s = [] \<or> (\<forall>v. safe_json_loads json_loads s \<noteq> Inr v)"
    by (simp add: fresh_world_def always_def response_content_Fault)
  show ?thesis
    using classify_exhausted_budget[OF a get_cve_id_nvd r1, of "''CVE-2024-1234''" 0 1]
      classify_exhausted_budget[OF a get_cve_id_nvd r2, of "''CVE-2024-1234''" 0 1]
      get_cve_id_nvd content_oops extract_oops
    by (simp add: error_result_eq)
qed


lemma classify_loop_append:
  assumes "fst st = None" and "fst (fst (classify_loop loads c as st w)) = None"
  shows "classify_loop loads c (as @ bs) st w =
    classify_loop loads c bs (fst (classify_loop loads c as st w))
      (snd (classify_loop loads c as st w))"
  using assms
proof (induction as arbitrary: st w)
  case Nil
  then show ?case by simp
next
  case (Cons a as)
  let ?q = "query (attempts c) (retry_delay c) w"
  show ?case
  proof (cases "fst ?q = None \<or> fst ?q = Some []")
    case True
    with Cons.prems have "fst (fst (classify_loop loads c as (fst st, a) (snd ?q))) = None"
      by (auto simp del: classify_loop.simps(2) simp add: classify_loop_step Let_def)
    from Cons.IH[OF _ this] True Cons.prems(1) show ?thesis
      by (auto simp del: classify_loop.simps(2) simp add: classify_loop_step Let_def)
  next
    case False
    show ?thesis
    proof (cases "safe_json_loads loads (the (fst ?q))")
      case (Inl e)
      with False Cons.prems
      have "fst (fst (classify_loop loads c as (fst st, a) (sleep (retry_delay c) (snd ?q)))) = None"
        by (auto simp del: classify_loop.simps(2) simp add: classify_loop_step Let_def)
      from Cons.IH[OF _ this] False Inl Cons.prems(1) show ?thesis
        by (auto simp del: classify_loop.simps(2) simp add: classify_loop_step Let_def)
    next
      case (Inr v)
      with False Cons.prems show ?thesis
        by (auto simp del: classify_loop.simps(2) simp add: classify_loop_step Let_def)
    qed
  qed
qed

lemma classify_loop_break:
  assumes "query (attempts c) (retry_delay c) w = (Some raw, w1)" and "raw \<noteq> []"
    and "safe_json_loads loads raw = Inr v"
  shows "classify_loop loads c (a # rest) st w = ((Some v, a), w1)"
  using assms by (simp del: classify_loop.simps(2) add: classify_loop_step Let_def)

text \<open>
  Claim C7 fails on the code. With a budget of 3 and an endpoint on which every
  transport attempt fails, a merged document whose \<^verbatim>\<open>mitre\<close> entry is not an object
  makes the identifier derivation (lines 79 to 84) raise \<^verbatim>\<open>AttributeError\<close> before the
  loop starts: \<^verbatim>\<open>classify\<close> returns no result at all.
\<close>

theorem classify_exhausted_budget_raises:
  "(1::int) \<le> 3 \<and>
   (\<forall>i s. response_content (net (fresh_world (always Fault)) i) \<noteq> Inr (Some s)) \<and>
   fst (classify json_loads
          \<lparr>attempts = 3, retry_delay = 2, output_map = [(''Category'', ''category'')]\<rparr>
          [(''mitre'', JArr [])] ''CVE-2024-1234'' 0 1 (fresh_world (always Fault))) =
     Inl AttributeError"
proof -
  have g: "get_cve_id [(''mitre'', JArr [])] ''CVE-2024-1234'' = Inl AttributeError"
    by (simp add: get_cve_id_def dict_get_def then_do_def)
  show ?thesis
    by (simp add: classify_raised[OF g] fresh_world_def always_def response_content_Fault)
qed

text \<open>
  Claim C9. Let the first \<open>j - 1\<close> attempts extract nothing, and let the transport
  client return on attempt \<open>j\<close> a text from which the extractor obtains the empty object.
  Then the loop stops there (the world after the classification is the one right after
  that transport call), and the result is the error result with \<open>attempts = j\<close>: the
  same dictionary that a total extraction failure gives, whose keys are the identifier,
  the error flag, the attempts and the elapsed time only.
\<close>

theorem classify_empty_object_is_error:
  assumes "get_cve_id d fb = Inr cid"
    and "1 \<le> j" and "j \<le> attempts c"
    and "classify_loop loads c [1..j - 1] (None, 0) w = ((None, u), wj)"
    and "query (attempts c) (retry_delay c) wj = (Some raw, w1)" and "raw \<noteq> []"
    and "safe_json_loads loads raw = Inr (JObj [])"
  shows "classify loads c d fb t0 t1 w = (Inr (error_result cid j (execution_time t0 t1)), w1) \<and>
         build_result c cid None j (execution_time t0 t1) =
           Inr (error_result cid j (execution_time t0 t1)) \<and>
         keys (error_result cid j (execution_time t0 t1)) =
           [''CVE_ID'', ''error'', ''attempts'', ''execution_time_seconds'']"
proof -
  have split: "[1..attempts c] = [1..j - 1] @ j # [j + 1..attempts c]"
    using assms(2,3) by (rule upto_split3)
  have "classify_loop loads c [1..attempts c] (None, 0) w =
      classify_loop loads c (j # [j + 1..attempts c]) (None, u) wj"
    unfolding split using classify_loop_append[of "(None, 0)" loads c "[1..j - 1]" w] assms(4)
    by simp
  also have "\<dots> = ((Some (JObj []), j), w1)"
    using assms(5,6,7) by (rule classify_loop_break)
  finally have "classify loads c d fb t0 t1 w =
      (build_result c cid (Some (JObj [])) j (execution_time t0 t1), w1)"
    using assms(1) by (simp add: classify_unfold)
  then show ?thesis
    by (simp add: build_result_falsy build_result_None error_result_eq keys_def)
qed

theorem classify_empty_object_is_error_witness:
  "get_cve_id [(''nvd'', JObj [])] ''CVE-2024-1234'' = Inr (JStr ''CVE-2024-1234'') \<and>
   safe_json_loads json_loads ''{}'' = Inr (JObj []) \<and>
   fst (classify json_loads
          \<lparr>attempts = 3, retry_delay = 2, output_map = [(''Category'', ''category'')]\<rparr>
          [(''nvd'', JObj [])] ''CVE-2024-1234'' 0 1
          (fresh_world (first_then (chat_reply ''oops'') (chat_reply ''{}'')))) =
     Inr [(''CVE_ID'', JStr ''CVE-2024-1234''), (''error'', JBool True), (''attempts'', JInt 2),
          (''execution_time_seconds'', execution_time 0 1)] \<and>
   trace (snd (classify json_loads
          \<lparr>attempts = 3, retry_delay = 2, output_map = [(''Category'', ''category'')]\<rparr>
          [(''nvd'', JObj [])] ''CVE-2024-1234'' 0 1
          (fresh_world (first_then (chat_reply ''oops'') (chat_reply ''{}''))))) =
     [Post, Sleep 2, Post]"
proof -
  let ?c = "\<lparr>attempts = 3, retry_delay = 2, output_map = [(''Category'', ''category'')]\<rparr>"
  let ?W = "fresh_world (first_then (chat_reply ''oops'') (chat_reply ''{}''))"
  let ?l = "classify_loop json_loads ?c [1..2 - 1] (None, 0) ?W"
  let ?q = "query (attempts ?c) (retry_delay ?c) (snd ?l)"
  have e: "safe_json_loads json_loads ''{}'' = Inr (JObj [])"
    by code_simp
  have "fst ?l = (None, 1)"
    by code_simp
  then have l: "?l = ((None, 1), snd ?l)"
    by (metis prod.collapse)
  have "fst ?q = Some ''{}''"
    by code_simp
  then have q: "?q = (Some ''{}'', snd ?q)"
    by (metis prod.collapse)
  have t: "trace (snd ?q) = [Post, Sleep 2, Post]"
    by code_simp
  have j: "(1::int) \<le> 2" "2 \<le> attempts ?c"
    by simp_all
  from classify_empty_object_is_error[OF get_cve_id_nvd j l q _ e, of "''CVE-2024-1234''" 0 1]
  show ?thesis
    using get_cve_id_nvd e t by (simp add: error_result_eq)
qed

section \<open>Exceptions that leave \<^verbatim>\<open>classify\<close>\<close>

text \<open>
  Claim C1 fails on the code. When the endpoint answers with a JSON text that is not an
  object, such as \<^verbatim>\<open>[1]\<close>, there is no brace span, the whole text parses, and the
  extractor returns a list although it is annotated to return a \<^verbatim>\<open>dict\<close>; the list is
  truthy, so the projection calls \<^verbatim>\<open>data.get\<close> on it and \<^verbatim>\<open>AttributeError\<close> leaves
  \<^verbatim>\<open>classify\<close>. The same exception leaves it before the loop when the \<^verbatim>\<open>mitre\<close>
  document of the merged pair is not an object.
\<close>

theorem classify_raises_on_non_object:
  "response_content (chat_reply ''[1]'') = Inr (Some ''[1]'') \<and>
   safe_json_loads json_loads ''[1]'' = Inr (JArr [JInt 1]) \<and>
   fst (classify json_loads
          \<lparr>attempts = 3, retry_delay = 2, output_map = [(''Category'', ''category'')]\<rparr>
          [(''nvd'', JObj [])] ''CVE-2024-1234'' 0 1 (fresh_world (always (chat_reply ''[1]'')))) =
     Inl AttributeError \<and>
   fst (classify json_loads
          \<lparr>attempts = 3, retry_delay = 2, output_map = [(''Category'', ''category'')]\<rparr>
          [(''mitre'', JArr [])] ''CVE-2024-1234'' 0 1 (fresh_world (always (chat_reply ''{}'')))) =
     Inl AttributeError"
proof -
  let ?c = "\<lparr>attempts = 3, retry_delay = 2, output_map = [(''Category'', ''category'')]\<rparr>"
  let ?W = "fresh_world (always (chat_reply ''[1]''))"
  have a: "response_content (chat_reply ''[1]'') = Inr (Some ''[1]'')"
    by code_simp
  have b: "safe_json_loads json_loads ''[1]'' = Inr (JArr [JInt 1])"
    by code_simp
  have l: "fst (classify_loop json_loads ?c [1..attempts ?c] (None, 0) ?W) =
      (Some (JArr [JInt 1]), 1)"
    by code_simp
  have c: "fst (classify json_loads ?c [(''nvd'', JObj [])] ''CVE-2024-1234'' 0 1 ?W) =
      Inl AttributeError"
    using l by (simp add: classify_unfold[OF get_cve_id_nvd] build_result_def then_do_def)
  have g: "get_cve_id [(''mitre'', JArr [])] ''CVE-2024-1234'' = Inl AttributeError"
    by (simp add: get_cve_id_def dict_get_def then_do_def)
  show ?thesis
    using a b c by (simp add: classify_raised[OF g])
qed

section \<open>The shape of a classification result\<close>

lemma map_of_dict_set: "map_of (dict_set k v d) = (map_of d)(k \<mapsto> v)"
  by (induction d) (auto simp: fun_eq_iff)

lemma keys_dict_set: "set (keys (dict_set k v d)) = insert k (set (keys d))"
proof (induction d)
  case Nil
  then show ?case by (simp add: keys_def)
next
  case (Cons p d)
  obtain k' v' where p: "p = (k', v')" by (cases p)
  from Cons show ?case
    unfolding p keys_def by (cases "k' = k") auto
qed

lemma project_props:
  assumes "project om data r0 = Inr r"
  shows "set (keys r) = set (keys r0) \<union> set (declared_fields om) \<and>
         (\<forall>k. k \<notin> set (declared_fields om) \<longrightarrow> map_of r k = map_of r0 k) \<and>
         (distinct (map fst om) \<longrightarrow>
            (\<forall>(fk, ak)\<in>set om. fk \<noteq> ''CVE_ID'' \<longrightarrow>
               (\<exists>v. py_get data ak (default_val fk) = Inr v \<and> map_of r fk = Some v)))"
  using assms
proof (induction om arbitrary: r0)
  case Nil
  then show ?case by (simp add: declared_fields_def)
next
  case (Cons p om)
  obtain fk ak where p: "p = (fk, ak)" by (cases p)
  show ?case
  proof (cases "fk = ''CVE_ID''")
    case True
    with Cons.prems p have "project om data r0 = Inr r" by simp
    from Cons.IH[OF this] True p show ?thesis
      by (auto simp: declared_fields_def)
  next
    case False
    with Cons.prems p obtain v where
      v: "py_get data ak (default_val fk) = Inr v"
      and rec: "project om data (dict_set fk v r0) = Inr r"
      by (cases "py_get data ak (default_val fk)") (auto simp: then_do_def)
    note ih = Cons.IH[OF rec]
    have k: "set (keys r) = set (keys r0) \<union> set (declared_fields (p # om))"
      using ih False p by (auto simp: keys_dict_set declared_fields_def)
    have o: "\<forall>k. k \<notin> set (declared_fields (p # om)) \<longrightarrow> map_of r k = map_of r0 k"
      using ih False p by (auto simp: map_of_dict_set declared_fields_def)
    have d: "distinct (map fst (p # om)) \<longrightarrow>
        (\<forall>(fk', ak')\<in>set (p # om). fk' \<noteq> ''CVE_ID'' \<longrightarrow>
           (\<exists>v. py_get data ak' (default_val fk') = Inr v \<and> map_of r fk' = Some v))"
    proof
      assume dist: "distinct (map fst (p # om))"
      then have "fk \<notin> set (declared_fields om)"
        using p by (auto simp: declared_fields_def)
      with ih have "map_of r fk = Some v"
        by (simp add: map_of_dict_set)
      with v ih dist p show "\<forall>(fk', ak')\<in>set (p # om). fk' \<noteq> ''CVE_ID'' \<longrightarrow>
           (\<exists>v. py_get data ak' (default_val fk') = Inr v \<and> map_of r fk' = Some v)"
        by auto
    qed
    from k o d show ?thesis by blast
  qed
qed


lemma keys_error_result:
  "set (keys (error_result cid k t)) = {''CVE_ID'', ''error'', ''attempts'', ''execution_time_seconds''}"
  by (auto simp: error_result_eq keys_def)

lemma build_result_cases:
  assumes "build_result c cid data k t = Inr r"
  shows "((data = None \<or> \<not> truthy (the data)) \<and> r = error_result cid k t) \<or>
         (\<exists>v r1. data = Some v \<and> truthy v \<and> project (output_map c) v [(''CVE_ID'', cid)] = Inr r1 \<and>
            r = dict_set ''attempts'' (JInt k) (dict_set ''execution_time_seconds'' t r1))"
proof (cases "data = None \<or> \<not> truthy (the data)")
  case True
  with assms show ?thesis by (auto simp: build_result_def)
next
  case False
  then obtain v where v: "data = Some v" "truthy v" by auto
  with assms obtain r1 where "project (output_map c) v [(''CVE_ID'', cid)] = Inr r1"
    "r = dict_set ''attempts'' (JInt k) (dict_set ''execution_time_seconds'' t r1)"
    by (cases "project (output_map c) v [(''CVE_ID'', cid)]") (auto simp: build_result_def then_do_def)
  with v show ?thesis by blast
qed

text \<open>
  Claim C2, as amended. Let the template declare none of the names \<^verbatim>\<open>error\<close>,
  \<^verbatim>\<open>attempts\<close> and \<^verbatim>\<open>execution_time_seconds\<close>, and take as declared fields its final
  field names other than \<^verbatim>\<open>CVE_ID\<close>. Then every result that \<^verbatim>\<open>classify\<close> returns has
  exactly one of the two shapes. A success result holds, for every declared field, the
  value of \<^verbatim>\<open>data.get\<close> at the mapped key, with the default \<^verbatim>\<open>[]\<close> when the final name
  contains \<^verbatim>\<open>Vendors\<close> or \<^verbatim>\<open>Products\<close> and \<^verbatim>\<open>null\<close> otherwise. An error result is
  the dictionary of identifier, error flag, attempts and elapsed time.
\<close>

theorem classify_result_shape:
  assumes "classify loads c d fb t0 t1 w = (Inr r, w')"
    and "''error'' \<notin> set (map fst (output_map c))"
    and "''attempts'' \<notin> set (map fst (output_map c))"
    and "''execution_time_seconds'' \<notin> set (map fst (output_map c))"
    and "distinct (map fst (output_map c))"
  shows "(success_shape (declared_fields (output_map c)) r \<and>
          \<not> error_shape (declared_fields (output_map c)) r \<and>
          (\<exists>data. fst (fst (classify_loop loads c [1..attempts c] (None, 0) w)) = Some data \<and>
             truthy data \<and>
             (\<forall>(fk, ak)\<in>set (output_map c). fk \<noteq> ''CVE_ID'' \<longrightarrow>
                (\<exists>v. py_get data ak (default_val fk) = Inr v \<and> map_of r fk = Some v)))) \<or>
         (error_shape (declared_fields (output_map c)) r \<and>
          \<not> success_shape (declared_fields (output_map c)) r \<and>
          (\<exists>cid k. r = error_result cid k (execution_time t0 t1)))"
proof -
  let ?F = "declared_fields (output_map c)"
  let ?l = "classify_loop loads c [1..attempts c] (None, 0) w"
  have F: "''error'' \<notin> set ?F" "''attempts'' \<notin> set ?F" "''execution_time_seconds'' \<notin> set ?F"
    "''CVE_ID'' \<notin> set ?F"
    using assms(2,3,4) by (auto simp: declared_fields_def)
  obtain cid where cid: "get_cve_id d fb = Inr cid"
    using assms(1) by (cases "get_cve_id d fb") (auto simp: classify_def)
  with assms(1) have b: "build_result c cid (fst (fst ?l)) (snd (fst ?l)) (execution_time t0 t1) = Inr r"
    by (simp add: classify_unfold)
  from build_result_cases[OF b] show ?thesis
  proof
    assume "(fst (fst ?l) = None \<or> \<not> truthy (the (fst (fst ?l)))) \<and>
      r = error_result cid (snd (fst ?l)) (execution_time t0 t1)"
    then have r: "r = error_result cid (snd (fst ?l)) (execution_time t0 t1)" by simp
    have "error_shape ?F r"
      using F by (auto simp: r error_shape_def has_key_def keys_error_result list_all_iff)
    moreover have "\<not> success_shape ?F r"
      by (simp add: r success_shape_def has_key_def keys_error_result)
    ultimately show ?thesis using r by blast
  next
    assume "\<exists>v r1. fst (fst ?l) = Some v \<and> truthy v \<and>
      project (output_map c) v [(''CVE_ID'', cid)] = Inr r1 \<and>
      r = dict_set ''attempts'' (JInt (snd (fst ?l)))
            (dict_set ''execution_time_seconds'' (execution_time t0 t1) r1)"
    then obtain v r1 where v: "fst (fst ?l) = Some v" "truthy v"
      and pr: "project (output_map c) v [(''CVE_ID'', cid)] = Inr r1"
      and r: "r = dict_set ''attempts'' (JInt (snd (fst ?l)))
            (dict_set ''execution_time_seconds'' (execution_time t0 t1) r1)"
      by blast
    note pp = project_props[OF pr]
    have k1: "set (keys r1) = insert ''CVE_ID'' (set ?F)"
      using pp by (simp add: keys_def)
    have kr: "set (keys r) = {''CVE_ID'', ''attempts'', ''execution_time_seconds''} \<union> set ?F"
      by (auto simp: r keys_dict_set k1)
    have s: "success_shape ?F r"
      using F by (auto simp: success_shape_def has_key_def kr list_all_iff)
    have e: "\<not> error_shape ?F r"
      using F by (auto simp: error_shape_def has_key_def kr)
    have vals: "\<forall>(fk, ak)\<in>set (output_map c). fk \<noteq> ''CVE_ID'' \<longrightarrow>
        (\<exists>x. py_get v ak (default_val fk) = Inr x \<and> map_of r fk = Some x)"
    proof (clarify)
      fix fk ak
      assume m: "(fk, ak) \<in> set (output_map c)" and n: "fk \<noteq> ''CVE_ID''"
      with pp assms(5) obtain x where x: "py_get v ak (default_val fk) = Inr x" "map_of r1 fk = Some x"
        by blast
      from m have "fk \<in> set (map fst (output_map c))" by force
      with assms(3,4) have "fk \<noteq> ''attempts''" "fk \<noteq> ''execution_time_seconds''" by blast+
      then have "map_of r fk = map_of r1 fk"
        by (simp add: r map_of_dict_set)
      with x show "\<exists>x. py_get v ak (default_val fk) = Inr x \<and> map_of r fk = Some x" by simp
    qed
    from s e v vals show ?thesis by blast
  qed
qed


theorem classify_result_shape_witness:
  "distinct (map fst [(''Category'', ''category''), (''Vendors'', ''vendors'')]) \<and>
   fst (classify json_loads
          \<lparr>attempts = 3, retry_delay = 2,
             output_map = [(''Category'', ''category''), (''Vendors'', ''vendors'')]\<rparr>
          [(''nvd'', JObj []), (''mitre'', JObj [])] ''CVE-2024-1234'' 0 1
          (fresh_world (always (chat_reply ''Result: {\"category\": \"RCE\"} as asked'')))) =
     Inr [(''CVE_ID'', JStr ''CVE-2024-1234''), (''Category'', JStr ''RCE''), (''Vendors'', JArr []),
          (''execution_time_seconds'', execution_time 0 1), (''attempts'', JInt 1)] \<and>
   success_shape [''Category'', ''Vendors'']
     [(''CVE_ID'', JStr ''CVE-2024-1234''), (''Category'', JStr ''RCE''), (''Vendors'', JArr []),
      (''execution_time_seconds'', execution_time 0 1), (''attempts'', JInt 1)] \<and>
   \<not> error_shape [''Category'', ''Vendors'']
     [(''CVE_ID'', JStr ''CVE-2024-1234''), (''Category'', JStr ''RCE''), (''Vendors'', JArr []),
      (''execution_time_seconds'', execution_time 0 1), (''attempts'', JInt 1)]"
proof -
  let ?c = "\<lparr>attempts = 3, retry_delay = 2,
             output_map = [(''Category'', ''category''), (''Vendors'', ''vendors'')]\<rparr>"
  let ?d = "[(''nvd'', JObj []), (''mitre'', JObj [])]"
  let ?W = "fresh_world (always (chat_reply ''Result: {\"category\": \"RCE\"} as asked''))"
  let ?r = "[(''CVE_ID'', JStr ''CVE-2024-1234''), (''Category'', JStr ''RCE''), (''Vendors'', JArr []),
          (''execution_time_seconds'', execution_time 0 1), (''attempts'', JInt 1)]"
  have g: "get_cve_id ?d ''CVE-2024-1234'' = Inr (JStr ''CVE-2024-1234'')"
    by (simp add: get_cve_id_def dict_get_def then_do_def)
  have l: "fst (classify_loop json_loads ?c [1..attempts ?c] (None, 0) ?W) =
      (Some (JObj [(''category'', JStr ''RCE'')]), 1)"
    by code_simp
  have dv: "default_val ''Category'' = JNull" "default_val ''Vendors'' = JArr []"
    by code_simp+
  have r: "fst (classify json_loads ?c ?d ''CVE-2024-1234'' 0 1 ?W) = Inr ?r"
    using l by (simp add: classify_unfold[OF g] build_result_def then_do_def dict_get_def dv)
  then have "classify json_loads ?c ?d ''CVE-2024-1234'' 0 1 ?W =
      (Inr ?r, snd (classify json_loads ?c ?d ''CVE-2024-1234'' 0 1 ?W))"
    by (metis prod.collapse)
  from classify_result_shape[OF this] r show ?thesis
    by (simp add: declared_fields_def success_shape_def error_shape_def has_key_def keys_def)
qed

text \<open>
  The claim as stated fails for a template that declares a final field named
  \<^verbatim>\<open>error\<close>: the result of a successful classification then carries an \<^verbatim>\<open>error\<close>
  field, so it has neither the success shape nor the error shape.
\<close>

theorem classify_template_error_field_counterexample:
  "fst (classify json_loads \<lparr>attempts = 3, retry_delay = 2, output_map = [(''error'', ''err'')]\<rparr>
          [(''nvd'', JObj []), (''mitre'', JObj [])] ''CVE-2024-1234'' 0 1
          (fresh_world (always (chat_reply ''{\"err\": true}'')))) =
     Inr [(''CVE_ID'', JStr ''CVE-2024-1234''), (''error'', JBool True),
          (''execution_time_seconds'', execution_time 0 1), (''attempts'', JInt 1)] \<and>
   \<not> success_shape (map fst [(''error'', ''err'')])
       [(''CVE_ID'', JStr ''CVE-2024-1234''), (''error'', JBool True),
        (''execution_time_seconds'', execution_time 0 1), (''attempts'', JInt 1)] \<and>
   \<not> error_shape (map fst [(''error'', ''err'')])
       [(''CVE_ID'', JStr ''CVE-2024-1234''), (''error'', JBool True),
        (''execution_time_seconds'', execution_time 0 1), (''attempts'', JInt 1)]"
proof -
  let ?c = "\<lparr>attempts = 3, retry_delay = 2, output_map = [(''error'', ''err'')]\<rparr>"
  let ?d = "[(''nvd'', JObj []), (''mitre'', JObj [])]"
  let ?W = "fresh_world (always (chat_reply ''{\"err\": true}''))"
  have g: "get_cve_id ?d ''CVE-2024-1234'' = Inr (JStr ''CVE-2024-1234'')"
    by (simp add: get_cve_id_def dict_get_def then_do_def)
  have l: "fst (classify_loop json_loads ?c [1..attempts ?c] (None, 0) ?W) =
      (Some (JObj [(''err'', JBool True)]), 1)"
    by code_simp
  have r: "fst (classify json_loads ?c ?d ''CVE-2024-1234'' 0 1 ?W) =
      Inr [(''CVE_ID'', JStr ''CVE-2024-1234''), (''error'', JBool True),
          (''execution_time_seconds'', execution_time 0 1), (''attempts'', JInt 1)]"
    using l by (simp add: classify_unfold[OF g] build_result_def then_do_def dict_get_def)
  then show ?thesis
    by (simp add: success_shape_def error_shape_def has_key_def keys_def)
qed

section \<open>Groups whose files cannot be loaded\<close>

lemma load_sources_none:
  assumes "\<forall>t\<in>set ts. \<forall>fname. map_of fm t = Some fname \<and> fname \<noteq> [] \<longrightarrow>
             load_json E (path_join base_dir fname) = None"
  shows "\<exists>n. load_sources E base_dir fm ts (combined, w) = (combined, w\<lparr>warnings := warnings w + n\<rparr>)"
  using assms
proof (induction ts arbitrary: w)
  case Nil
  have "w = w\<lparr>warnings := warnings w + 0\<rparr>" by simp
  then show ?case by (metis load_sources.simps(1))
next
  case (Cons t ts)
  from Cons.prems have rest: "\<forall>t\<in>set ts. \<forall>fname. map_of fm t = Some fname \<and> fname \<noteq> [] \<longrightarrow>
             load_json E (path_join base_dir fname) = None"
    by simp
  show ?case
  proof (cases "map_of fm t")
    case None
    with Cons.IH[OF rest, of w] show ?thesis by simp
  next
    case (Some fname)
    show ?thesis
    proof (cases "fname = []")
      case True
      with Some Cons.IH[OF rest, of w] show ?thesis by simp
    next
      case False
      with Some Cons.prems have l: "load_json E (path_join base_dir fname) = None" by simp
      from Cons.IH[OF rest, of "log_warning w"] obtain n where
        "load_sources E base_dir fm ts (combined, log_warning w) =
           (combined, (log_warning w)\<lparr>warnings := warnings (log_warning w) + n\<rparr>)"
        by blast
      then have "load_sources E base_dir fm (t # ts) (combined, w) =
          (combined, w\<lparr>warnings := warnings w + Suc n\<rparr>)"
        using Some False l by (simp add: log_warning_def)
      then show ?thesis by blast
    qed
  qed
qed

text \<open>
  Claim C4, as amended. When none of the source files named by a group can be read or
  parsed, \<^verbatim>\<open>process_file_group\<close> returns \<^verbatim>\<open>None\<close>, the endpoint is never called and only
  warnings are logged; the loop of \<^verbatim>\<open>main\<close> then leaves its state as it was: no output
  file, no entry in the failure list. When one of the two files fails and the other
  loads, the group is not skipped: the failure is logged as a warning and the one-sided
  document is classified.
\<close>

theorem process_file_group_skips_when_nothing_loads:
  "((\<forall>t\<in>{''nvd'', ''mitre''}. \<forall>fname. map_of fm t = Some fname \<and> fname \<noteq> [] \<longrightarrow>
        load_json E (path_join base_dir fname) = None) \<longrightarrow>
      (\<exists>n. process_file_group loads E c b fm base_dir t0 t1 w =
             (Inr None, w\<lparr>warnings := warnings w + n\<rparr>)) \<and>
      handle_future E out_dir (fst (process_file_group loads E c b fm base_dir t0 t1 w)) st = st) \<and>
   (map_of fm ''nvd'' = Some f1 \<and> f1 \<noteq> [] \<and> load_json E (path_join base_dir f1) = None \<and>
    map_of fm ''mitre'' = Some f2 \<and> f2 \<noteq> [] \<and> load_json E (path_join base_dir f2) = Some doc \<longrightarrow>
      process_file_group loads E c b fm base_dir t0 t1 w =
        (case classify loads c [(''mitre'', doc)] b t0 t1 (log_warning w) of
           (Inl e, w2) \<Rightarrow> (Inl e, w2)
         | (Inr r, w2) \<Rightarrow> (Inr (Some r), w2))) \<and>
   (map_of fm ''nvd'' = Some f1 \<and> f1 \<noteq> [] \<and> load_json E (path_join base_dir f1) = Some doc \<and>
    map_of fm ''mitre'' = Some f2 \<and> f2 \<noteq> [] \<and> load_json E (path_join base_dir f2) = None \<longrightarrow>
      process_file_group loads E c b fm base_dir t0 t1 w =
        (case classify loads c [(''nvd'', doc)] b t0 t1 (log_warning w) of
           (Inl e, w2) \<Rightarrow> (Inl e, w2)
         | (Inr r, w2) \<Rightarrow> (Inr (Some r), w2)))"
proof (intro conjI impI)
  assume h: "\<forall>t\<in>{''nvd'', ''mitre''}. \<forall>fname. map_of fm t = Some fname \<and> fname \<noteq> [] \<longrightarrow>
        load_json E (path_join base_dir fname) = None"
  then have "\<forall>t\<in>set [''nvd'', ''mitre'']. \<forall>fname. map_of fm t = Some fname \<and> fname \<noteq> [] \<longrightarrow>
        load_json E (path_join base_dir fname) = None"
    by simp
  from load_sources_none[OF this, of "[]" w] obtain n where
    n: "load_sources E base_dir fm [''nvd'', ''mitre''] ([], w) = ([], w\<lparr>warnings := warnings w + n\<rparr>)"
    by blast
  then have p: "process_file_group loads E c b fm base_dir t0 t1 w =
      (Inr None, w\<lparr>warnings := warnings w + n\<rparr>)"
    by (simp add: process_file_group_def)
  then show "\<exists>n. process_file_group loads E c b fm base_dir t0 t1 w =
      (Inr None, w\<lparr>warnings := warnings w + n\<rparr>)"
    by blast
  from p show "handle_future E out_dir (fst (process_file_group loads E c b fm base_dir t0 t1 w)) st = st"
    by (simp add: handle_future_def)
next
  assume "map_of fm ''nvd'' = Some f1 \<and> f1 \<noteq> [] \<and> load_json E (path_join base_dir f1) = None \<and>
    map_of fm ''mitre'' = Some f2 \<and> f2 \<noteq> [] \<and> load_json E (path_join base_dir f2) = Some doc"
  then show "process_file_group loads E c b fm base_dir t0 t1 w =
        (case classify loads c [(''mitre'', doc)] b t0 t1 (log_warning w) of
           (Inl e, w2) \<Rightarrow> (Inl e, w2)
         | (Inr r, w2) \<Rightarrow> (Inr (Some r), w2))"
    by (simp add: process_file_group_def)
next
  assume "map_of fm ''nvd'' = Some f1 \<and> f1 \<noteq> [] \<and> load_json E (path_join base_dir f1) = Some doc \<and>
    map_of fm ''mitre'' = Some f2 \<and> f2 \<noteq> [] \<and> load_json E (path_join base_dir f2) = None"
  then show "process_file_group loads E c b fm base_dir t0 t1 w =
        (case classify loads c [(''nvd'', doc)] b t0 t1 (log_warning w) of
           (Inl e, w2) \<Rightarrow> (Inl e, w2)
         | (Inr r, w2) \<Rightarrow> (Inr (Some r), w2))"
    by (simp add: process_file_group_def)
qed


lemma get_cve_id_mitre_empty: "get_cve_id [(''mitre'', JObj [])] fb = Inr (JStr fb)"
  by (simp add: get_cve_id_def dict_get_def then_do_def)

lemma one_sided_classification:
  "fst (classify json_loads
          \<lparr>attempts = 3, retry_delay = 2, output_map = [(''Category'', ''category'')]\<rparr>
          [(''mitre'', JObj [])] ''CVE-2024-1234'' 0 1 (log_warning (fresh_world (always Fault)))) =
     Inr [(''CVE_ID'', JStr ''CVE-2024-1234''), (''error'', JBool True), (''attempts'', JInt 3),
          (''execution_time_seconds'', execution_time 0 1)]"
proof -
  let ?c = "\<lparr>attempts = 3, retry_delay = 2, output_map = [(''Category'', ''category'')]\<rparr>"
  have "fst (classify_loop json_loads ?c [1..attempts ?c] (None, 0)
               (log_warning (fresh_world (always Fault)))) = (None, 3)"
    by code_simp
  then show ?thesis
    by (simp add: classify_unfold[OF get_cve_id_mitre_empty] build_result_None error_result_eq)
qed

lemma fst_wrap_result:
  "fst x = Inr r \<Longrightarrow>
   fst (case x of (Inl e, w2) \<Rightarrow> (Inl e, w2) | (Inr r, w2) \<Rightarrow> (Inr (Some r), w2)) = Inr (Some r)"
  by (cases x) auto

lemma process_file_group_result:
  assumes "load_sources E bd fm [''nvd'', ''mitre''] ([], w) = (combined, w1)"
    and "combined \<noteq> []"
    and "fst (classify loads c combined b t0 t1 w1) = Inr r"
  shows "fst (process_file_group loads E c b fm bd t0 t1 w) = Inr (Some r)"
  unfolding process_file_group_def assms(1) using assms(2) fst_wrap_result[OF assms(3)]
  by simp

lemma paths:
  "path_join ''json'' ''CVE-2024-1234.nvd'' = ''json/CVE-2024-1234.nvd''"
  "path_join ''json'' ''CVE-2024-1234.mitre'' = ''json/CVE-2024-1234.mitre''"
  by (simp_all add: path_join_def)

theorem process_file_group_skips_when_nothing_loads_witness:
  "fst (process_file_group json_loads (test_env no_file Written)
          \<lparr>attempts = 3, retry_delay = 2, output_map = [(''Category'', ''category'')]\<rparr>
          ''CVE-2024-1234''
          [(''nvd'', ''CVE-2024-1234.nvd''), (''mitre'', ''CVE-2024-1234.mitre'')]
          ''json'' 0 1 (fresh_world (always Fault))) = Inr None \<and>
   handle_future (test_env no_file Written) ''output''
     (fst (process_file_group json_loads (test_env no_file Written)
          \<lparr>attempts = 3, retry_delay = 2, output_map = [(''Category'', ''category'')]\<rparr>
          ''CVE-2024-1234''
          [(''nvd'', ''CVE-2024-1234.nvd''), (''mitre'', ''CVE-2024-1234.mitre'')]
          ''json'' 0 1 (fresh_world (always Fault)))) empty_run = empty_run \<and>
   fst (process_file_group json_loads
          (test_env (only_file ''json/CVE-2024-1234.mitre'' (JObj [])) Written)
          \<lparr>attempts = 3, retry_delay = 2, output_map = [(''Category'', ''category'')]\<rparr>
          ''CVE-2024-1234''
          [(''nvd'', ''CVE-2024-1234.nvd''), (''mitre'', ''CVE-2024-1234.mitre'')]
          ''json'' 0 1 (fresh_world (always Fault))) =
     Inr (Some [(''CVE_ID'', JStr ''CVE-2024-1234''), (''error'', JBool True), (''attempts'', JInt 3),
          (''execution_time_seconds'', execution_time 0 1)])"
proof -
  let ?c = "\<lparr>attempts = 3, retry_delay = 2, output_map = [(''Category'', ''category'')]\<rparr>"
  let ?fm = "[(''nvd'', ''CVE-2024-1234.nvd''), (''mitre'', ''CVE-2024-1234.mitre'')]"
  let ?W = "fresh_world (always Fault)"
  let ?E1 = "test_env no_file Written"
  let ?E2 = "test_env (only_file ''json/CVE-2024-1234.mitre'' (JObj [])) Written"
  have h1: "\<forall>t\<in>{''nvd'', ''mitre''}. \<forall>fname. map_of ?fm t = Some fname \<and> fname \<noteq> [] \<longrightarrow>
        load_json ?E1 (path_join ''json'' fname) = None"
    by (simp add: test_env_def no_file_def)
  have h2: "map_of ?fm ''nvd'' = Some ''CVE-2024-1234.nvd'' \<and> ''CVE-2024-1234.nvd'' \<noteq> [] \<and>
      load_json ?E2 (path_join ''json'' ''CVE-2024-1234.nvd'') = None \<and>
      map_of ?fm ''mitre'' = Some ''CVE-2024-1234.mitre'' \<and> ''CVE-2024-1234.mitre'' \<noteq> [] \<and>
      load_json ?E2 (path_join ''json'' ''CVE-2024-1234.mitre'') = Some (JObj [])"
    by (simp add: test_env_def only_file_def paths)
  note t1 = process_file_group_skips_when_nothing_loads[where E = ?E1 and fm = ?fm
      and base_dir = "''json''" and loads = json_loads and c = ?c and b = "''CVE-2024-1234''"
      and ?t0.0 = 0 and ?t1.0 = 1 and w = ?W and out_dir = "''output''" and st = empty_run
      and ?f1.0 = "[]" and ?f2.0 = "[]" and doc = JNull]
  note t2 = process_file_group_skips_when_nothing_loads[where E = ?E2 and fm = ?fm
      and base_dir = "''json''" and loads = json_loads and c = ?c and b = "''CVE-2024-1234''"
      and ?t0.0 = 0 and ?t1.0 = 1 and w = ?W and ?f1.0 = "''CVE-2024-1234.nvd''"
      and ?f2.0 = "''CVE-2024-1234.mitre''" and doc = "JObj []"
      and out_dir = "[]" and st = empty_run]
  from t1[THEN conjunct1] h1 have s1: "(\<exists>n. process_file_group json_loads ?E1 ?c ''CVE-2024-1234'' ?fm ''json'' 0 1 ?W =
             (Inr None, ?W\<lparr>warnings := warnings ?W + n\<rparr>)) \<and>
      handle_future ?E1 ''output''
       (fst (process_file_group json_loads ?E1 ?c ''CVE-2024-1234'' ?fm ''json'' 0 1 ?W)) empty_run =
      empty_run"
    by blast
  then obtain n where "process_file_group json_loads ?E1 ?c ''CVE-2024-1234'' ?fm ''json'' 0 1 ?W =
             (Inr None, ?W\<lparr>warnings := warnings ?W + n\<rparr>)"
    by blast
  then have a1: "fst (process_file_group json_loads ?E1 ?c ''CVE-2024-1234'' ?fm ''json'' 0 1 ?W) =
      Inr None"
    by simp
  from s1 have a2: "handle_future ?E1 ''output''
       (fst (process_file_group json_loads ?E1 ?c ''CVE-2024-1234'' ?fm ''json'' 0 1 ?W)) empty_run =
     empty_run"
    by blast
  from t2[THEN conjunct2] h2
  have p2: "process_file_group json_loads ?E2 ?c ''CVE-2024-1234'' ?fm ''json'' 0 1 ?W =
      (case classify json_loads ?c [(''mitre'', JObj [])] ''CVE-2024-1234'' 0 1 (log_warning ?W) of
         (Inl e, w2) \<Rightarrow> (Inl e, w2)
       | (Inr r, w2) \<Rightarrow> (Inr (Some r), w2))"
    by blast
  have b: "fst (process_file_group json_loads ?E2 ?c ''CVE-2024-1234'' ?fm ''json'' 0 1 ?W) =
      Inr (Some [(''CVE_ID'', JStr ''CVE-2024-1234''), (''error'', JBool True), (''attempts'', JInt 3),
          (''execution_time_seconds'', execution_time 0 1)])"
    unfolding p2 using one_sided_classification by (rule fst_wrap_result)
  from a1 a2 b show ?thesis by simp
qed

text \<open>
  The claim as stated fails: in the group below the \<^verbatim>\<open>nvd\<close> file cannot be read and the
  \<^verbatim>\<open>mitre\<close> file can. \<^verbatim>\<open>process_file_group\<close> returns a classification result (here an
  error result, the endpoint being down), and the loop of \<^verbatim>\<open>main\<close> appends the
  identifier to the failure list.
\<close>

theorem process_file_group_one_side_unreadable_counterexample:
  "load_json (test_env (only_file ''json/CVE-2024-1234.mitre'' (JObj [])) Written)
     (path_join ''json'' ''CVE-2024-1234.nvd'') = None \<and>
   fst (process_file_group json_loads
          (test_env (only_file ''json/CVE-2024-1234.mitre'' (JObj [])) Written)
          \<lparr>attempts = 3, retry_delay = 2, output_map = [(''Category'', ''category'')]\<rparr>
          ''CVE-2024-1234''
          [(''nvd'', ''CVE-2024-1234.nvd''), (''mitre'', ''CVE-2024-1234.mitre'')]
          ''json'' 0 1 (fresh_world (always Fault))) =
     Inr (Some [(''CVE_ID'', JStr ''CVE-2024-1234''), (''error'', JBool True), (''attempts'', JInt 3),
          (''execution_time_seconds'', execution_time 0 1)]) \<and>
   failed_cves
     (handle_future (test_env (only_file ''json/CVE-2024-1234.mitre'' (JObj [])) Written) ''output''
        (Inr (Some [(''CVE_ID'', JStr ''CVE-2024-1234''), (''error'', JBool True),
                    (''attempts'', JInt 3), (''execution_time_seconds'', execution_time 0 1)]))
        empty_run) = [JStr ''CVE-2024-1234'']"
proof -
  let ?c = "\<lparr>attempts = 3, retry_delay = 2, output_map = [(''Category'', ''category'')]\<rparr>"
  let ?fm = "[(''nvd'', ''CVE-2024-1234.nvd''), (''mitre'', ''CVE-2024-1234.mitre'')]"
  let ?W = "fresh_world (always Fault)"
  let ?E = "test_env (only_file ''json/CVE-2024-1234.mitre'' (JObj [])) Written"
  have a: "load_json ?E (path_join ''json'' ''CVE-2024-1234.nvd'') = None"
    by (simp add: test_env_def only_file_def paths)
  have m: "load_json ?E (path_join ''json'' ''CVE-2024-1234.mitre'') = Some (JObj [])"
    by (simp add: test_env_def only_file_def paths)
  have ls: "load_sources ?E ''json'' ?fm [''nvd'', ''mitre''] ([], ?W) =
      ([(''mitre'', JObj [])], log_warning ?W)"
    using a m by simp
  have b: "fst (process_file_group json_loads ?E ?c ''CVE-2024-1234'' ?fm ''json'' 0 1 ?W) =
      Inr (Some [(''CVE_ID'', JStr ''CVE-2024-1234''), (''error'', JBool True), (''attempts'', JInt 3),
          (''execution_time_seconds'', execution_time 0 1)])"
    by (rule process_file_group_result[OF ls _ one_sided_classification]) simp
  have c: "failed_cves (handle_future ?E ''output''
        (Inr (Some [(''CVE_ID'', JStr ''CVE-2024-1234''), (''error'', JBool True),
                    (''attempts'', JInt 3), (''execution_time_seconds'', execution_time 0 1)]))
        empty_run) = [JStr ''CVE-2024-1234'']"
    by (simp add: handle_future_def dict_get_def empty_run_def)
  from a b c show ?thesis by simp
qed

section \<open>Persisting results and the failure list\<close>






text \<open>
  Claim C10, as amended. When the write of the output file of a successful result
  raises, the loop logs one warning and goes on: the failure list, the error count and
  every other file are unchanged. The file at the output path is left untouched when the
  open failed, truncated when the dump or the flush failed, and complete when the sync
  or the close failed after the document was written. So no complete output file comes
  into being for the record when the error comes before the document is written out.
\<close>

theorem failed_write_leaves_failure_list:
  assumes "r \<noteq> []" and "\<not> truthy (dict_get r ''error'' JNull)"
    and "map_of r ''CVE_ID'' = Some cid"
    and "write_output E (path_join od (py_str E cid @ ''.json'')) \<noteq> Written"
  shows "failed_cves (handle_future E od (Inr (Some r)) st) = failed_cves st \<and>
         log_warnings (handle_future E od (Inr (Some r)) st) = Suc (log_warnings st) \<and>
         log_errors (handle_future E od (Inr (Some r)) st) = log_errors st \<and>
         (\<forall>p. p \<noteq> path_join od (py_str E cid @ ''.json'') \<longrightarrow>
            files (handle_future E od (Inr (Some r)) st) p = files st p) \<and>
         (write_output E (path_join od (py_str E cid @ ''.json'')) = OpenFailed \<longrightarrow>
            files (handle_future E od (Inr (Some r)) st) (path_join od (py_str E cid @ ''.json'')) =
              files st (path_join od (py_str E cid @ ''.json''))) \<and>
         (write_output E (path_join od (py_str E cid @ ''.json'')) = WriteFailed \<longrightarrow>
            files (handle_future E od (Inr (Some r)) st) (path_join od (py_str E cid @ ''.json'')) =
              Some Truncated) \<and>
         (write_output E (path_join od (py_str E cid @ ''.json'')) = SyncFailed \<longrightarrow>
            files (handle_future E od (Inr (Some r)) st) (path_join od (py_str E cid @ ''.json'')) =
              Some (Complete r)) \<and>
         (write_output E (path_join od (py_str E cid @ ''.json'')) \<noteq> SyncFailed \<and>
          (\<forall>x. files st (path_join od (py_str E cid @ ''.json'')) \<noteq> Some (Complete x)) \<longrightarrow>
          (\<forall>x. files (handle_future E od (Inr (Some r)) st)
                 (path_join od (py_str E cid @ ''.json'')) \<noteq> Some (Complete x)))"
  using assms
  by (cases "write_output E (path_join od (py_str E cid @ ''.json''))")
     (simp_all add: handle_future_def Let_def)

text \<open>
  The claim as stated fails: when \<^verbatim>\<open>os.fsync\<close> raises after the document was written
  and flushed, the loop logs its warning and goes on, the failure list is unchanged, and
  the identifier does have a complete output file.
\<close>

theorem write_raising_after_dump_counterexample:
  "write_output (test_env no_file SyncFailed)
     (path_join ''output'' (py_str (test_env no_file SyncFailed) (JStr ''CVE-2024-1234'') @ ''.json'')) \<noteq>
     Written \<and>
   files
     (handle_future (test_env no_file SyncFailed) ''output''
        (Inr (Some [(''CVE_ID'', JStr ''CVE-2024-1234''), (''Category'', JStr ''RCE''),
                    (''execution_time_seconds'', execution_time 0 1), (''attempts'', JInt 1)]))
        empty_run) ''output/CVE-2024-1234.json'' =
     Some (Complete [(''CVE_ID'', JStr ''CVE-2024-1234''), (''Category'', JStr ''RCE''),
                     (''execution_time_seconds'', execution_time 0 1), (''attempts'', JInt 1)]) \<and>
   log_warnings
     (handle_future (test_env no_file SyncFailed) ''output''
        (Inr (Some [(''CVE_ID'', JStr ''CVE-2024-1234''), (''Category'', JStr ''RCE''),
                    (''execution_time_seconds'', execution_time 0 1), (''attempts'', JInt 1)]))
        empty_run) = 1 \<and>
   failed_cves
     (handle_future (test_env no_file SyncFailed) ''output''
        (Inr (Some [(''CVE_ID'', JStr ''CVE-2024-1234''), (''Category'', JStr ''RCE''),
                    (''execution_time_seconds'', execution_time 0 1), (''attempts'', JInt 1)]))
        empty_run) = []"
proof -
  have p: "path_join ''output'' (str_of_id (JStr ''CVE-2024-1234'') @ ''.json'') =
      ''output/CVE-2024-1234.json''"
    by (simp add: path_join_def str_of_id_def)
  show ?thesis
    using p by (simp add: handle_future_def dict_get_def test_env_def empty_run_def)
qed

theorem failed_write_leaves_failure_list_witness:
  "write_output (test_env no_file OpenFailed)
     (path_join ''output'' (py_str (test_env no_file OpenFailed) (JStr ''CVE-2024-1234'') @ ''.json'')) \<noteq>
     Written \<and>
   handle_future (test_env no_file OpenFailed) ''output''
     (Inr (Some [(''CVE_ID'', JStr ''CVE-2024-1234''), (''Category'', JStr ''RCE''),
                 (''execution_time_seconds'', execution_time 0 1), (''attempts'', JInt 1)]))
     empty_run = empty_run\<lparr>log_warnings := 1\<rparr> \<and>
   failed_cves
     (handle_future (test_env no_file WriteFailed) ''output''
        (Inr (Some [(''CVE_ID'', JStr ''CVE-2024-1234''), (''Category'', JStr ''RCE''),
                    (''execution_time_seconds'', execution_time 0 1), (''attempts'', JInt 1)]))
        empty_run) = [] \<and>
   files
     (handle_future (test_env no_file WriteFailed) ''output''
        (Inr (Some [(''CVE_ID'', JStr ''CVE-2024-1234''), (''Category'', JStr ''RCE''),
                    (''execution_time_seconds'', execution_time 0 1), (''attempts'', JInt 1)]))
        empty_run) ''output/CVE-2024-1234.json'' = Some Truncated"
proof -
  let ?r = "[(''CVE_ID'', JStr ''CVE-2024-1234''), (''Category'', JStr ''RCE''),
             (''execution_time_seconds'', execution_time 0 1), (''attempts'', JInt 1)]"
  have a: "?r \<noteq> []" "\<not> truthy (dict_get ?r ''error'' JNull)"
    "map_of ?r ''CVE_ID'' = Some (JStr ''CVE-2024-1234'')"
    by (simp_all add: dict_get_def)
  have w1: "write_output (test_env no_file OpenFailed)
     (path_join ''output'' (py_str (test_env no_file OpenFailed) (JStr ''CVE-2024-1234'') @ ''.json'')) \<noteq>
     Written"
    by (simp add: test_env_def)
  have w2: "write_output (test_env no_file WriteFailed)
     (path_join ''output'' (py_str (test_env no_file WriteFailed) (JStr ''CVE-2024-1234'') @ ''.json'')) \<noteq>
     Written"
    by (simp add: test_env_def)
  have p: "path_join ''output'' (str_of_id (JStr ''CVE-2024-1234'') @ ''.json'') =
      ''output/CVE-2024-1234.json''"
    by (simp add: path_join_def str_of_id_def)
  have e: "handle_future (test_env no_file OpenFailed) ''output'' (Inr (Some ?r)) empty_run =
      empty_run\<lparr>log_warnings := 1\<rparr>"
    using a by (simp add: handle_future_def test_env_def empty_run_def)
  have f: "files (handle_future (test_env no_file WriteFailed) ''output'' (Inr (Some ?r)) empty_run)
      ''output/CVE-2024-1234.json'' = Some Truncated"
    using a p by (simp add: handle_future_def test_env_def empty_run_def)
  from failed_write_leaves_failure_list[OF a w2, where st = empty_run] w1 e f
  show ?thesis
    by (simp add: empty_run_def)
qed






end
